theory Spec2Isabelle
  imports
    Complex_Main
    "HOL-Library.Char_ord"
    "HOL-Library.List_Lexorder"
    "HOL-Library.Product_Lexorder"
    "HOL-Library.AList"
begin

section \<open>Data model\<close>

text \<open>
  The callbacks of \<^verbatim>\<open>jcarbon/tensorflow/callbacks.py\<close> drive a remote sampling backend
  from the lifecycle hooks of a training loop. A raised Python exception is a value of
  \<open>error\<close>; since an exception leaves the callback object as mutated so far, every
  handler returns the state it reached together with the exception, if any.
\<close>

datatype error =
    SessionAlreadyOpenError
  | NoOpenSessionError
  | BackendUnavailableError
  | MalformedReportError
  | AttributeError
  | KeyError
  | ValueError

text \<open>
  One row of the pandas Series that \<^verbatim>\<open>to_dataframe\<close> yields: the index levels that
  \<^verbatim>\<open>add_jcarbon_log\<close> groups by, the timestamp bucket, and the measured value.
\<close>

record sample =
  bucket :: nat
  component_type :: string
  component_id :: string
  unit :: string
  source :: string
  val :: real

type_synonym series = "sample list"

type_synonym group_key = "string \<times> string \<times> string \<times> string"

text \<open>The metrics dictionary \<^verbatim>\<open>logs\<close>: a Python dict keeps insertion order, an
  assignment to a present key keeps its place, and the dict is falsy when empty.\<close>

type_synonym logs = "(string \<times> real) list"

definition UNITS :: "(string \<times> string) list" where
  "UNITS =
    [(''GRAMS_OF_CO2'', ''CO2''),
     (''JOULES'', ''J''),
     (''ACTIVITY'', ''%''),
     (''NANOSECONDS'', ''ns''),
     (''JIFFIES'', ''''),
     (''WATTS'', ''W'')]"

section \<open>The pandas operations the callbacks use\<close>

text \<open>\<^verbatim>\<open>pd.concat(objs)\<close> stacks the rows of its arguments in order; on an empty list
  it raises \<^verbatim>\<open>ValueError\<close>.\<close>

definition pd_concat :: "'a list list \<Rightarrow> error + 'a list" where
  "pd_concat objs = (if objs = [] then Inl ValueError else Inr (concat objs))"

definition key_of :: "sample \<Rightarrow> group_key" where
  "key_of r = (component_type r, component_id r, unit r, source r)"

text \<open>\<^verbatim>\<open>df.groupby([...])\<close> iterates over the distinct keys in sorted order
  (\<^verbatim>\<open>sort=True\<close> is the default); each group keeps its rows in their order in
  \<open>df\<close>.\<close>

definition groupby :: "series \<Rightarrow> (group_key \<times> series) list" where
  "groupby df =
     map (\<lambda>k. (k, filter (\<lambda>r. key_of r = k) df)) (sort (remdups (map key_of df)))"

text \<open>\<^verbatim>\<open>df[df > 0].sum()\<close>\<close>

definition positive_sum :: "series \<Rightarrow> real" where
  "positive_sum g = sum_list (map val (filter (\<lambda>r. val r > 0) g))"

section \<open>add\_jcarbon\_log\<close>

text \<open>The body of the \<^verbatim>\<open>for\<close> loop of \<^verbatim>\<open>add_jcarbon_log\<close>, over the groups still to
  visit. \<^verbatim>\<open>UNITS[unit]\<close> raises \<^verbatim>\<open>KeyError\<close> on a missing key.\<close>

fun log_groups :: "(group_key \<times> series) list \<Rightarrow> logs \<Rightarrow> error option \<times> logs" where
  "log_groups [] m = (None, m)"
| "log_groups ((k, g) # gs) m =
     (case k of (ct, ci, u, src) \<Rightarrow>
        if u = ''JOULES'' then
          (case map_of UNITS u of
             None \<Rightarrow> (Some KeyError, m)
           | Some label \<Rightarrow>
               log_groups gs (AList.update (ct @ ''-'' @ label) (positive_sum g) m))
        else log_groups gs m)"

text \<open>\<^verbatim>\<open>logs=None\<close> is \<open>None\<close>; \<^verbatim>\<open>if logs:\<close> holds for a dict that is present and
  not empty.\<close>

definition add_jcarbon_log :: "series \<Rightarrow> logs option \<Rightarrow> error option \<times> logs option" where
  "add_jcarbon_log df logs =
     (case logs of
        None \<Rightarrow> (None, None)
      | Some m \<Rightarrow>
          if m \<noteq> [] then
            (case log_groups (groupby df) m of (e, m') \<Rightarrow> (e, Some m'))
          else (None, Some m))"

section \<open>The backend client\<close>

datatype call =
    Purge
  | is_Start: Start nat nat
  | is_Stop: Stop nat
  | Read nat "string list"

text \<open>
  Modelled from the spec: \<^verbatim>\<open>JCarbonClient\<close> (module \<^verbatim>\<open>jcarbon.client\<close>) is not among
  the sources. Its contract is the SessionClient interface of the specification:
  \<^verbatim>\<open>start(pid, periodMs)\<close> fails if a session is already open for \<open>pid\<close>,
  \<^verbatim>\<open>stop(pid)\<close> fails if none is, \<^verbatim>\<open>read\<close> returns a Report, and any remote call
  may fail with \<^verbatim>\<open>BackendUnavailableError\<close>. The record keeps the pids with an open
  session, every call issued so far in order, the number of reports served, the report
  that the \<open>k\<close>-th successful \<^verbatim>\<open>read\<close> returns, and the positions in the call
  sequence at which the backend is unavailable. A call that fails changes nothing but
  the record of calls.
\<close>

record 'r client =
  sessions :: "nat set"
  trace :: "call list"
  served :: nat
  readings :: "nat \<Rightarrow> 'r"
  outages :: "nat set"

text \<open>Modelled from the spec: the operations of the client that the callbacks call,
  absent from the sources with the client. \<^verbatim>\<open>purge()\<close> clears stale data and leaves
  the sessions alone.\<close>

definition purge :: "'r client \<Rightarrow> error option \<times> 'r client" where
  "purge c =
     (let c1 = c\<lparr>trace := trace c @ [Purge]\<rparr> in
      if length (trace c) \<in> outages c then (Some BackendUnavailableError, c1)
      else (None, c1))"

text \<open>Modelled from the spec: \<^verbatim>\<open>start(pid, periodMs)\<close> fails if a session is already open for the pid.\<close>

definition start :: "nat \<Rightarrow> nat \<Rightarrow> 'r client \<Rightarrow> error option \<times> 'r client" where
  "start p period c =
     (let c1 = c\<lparr>trace := trace c @ [Start p period]\<rparr> in
      if length (trace c) \<in> outages c then (Some BackendUnavailableError, c1)
      else if p \<in> sessions c then (Some SessionAlreadyOpenError, c1)
      else (None, c1\<lparr>sessions := insert p (sessions c)\<rparr>))"

text \<open>Modelled from the spec: \<^verbatim>\<open>stop(pid)\<close> fails if no session is open for the pid.\<close>

definition stop :: "nat \<Rightarrow> 'r client \<Rightarrow> error option \<times> 'r client" where
  "stop p c =
     (let c1 = c\<lparr>trace := trace c @ [Stop p]\<rparr> in
      if length (trace c) \<in> outages c then (Some BackendUnavailableError, c1)
      else if p \<notin> sessions c then (Some NoOpenSessionError, c1)
      else (None, c1\<lparr>sessions := sessions c - {p}\<rparr>))"

text \<open>Modelled from the spec: \<^verbatim>\<open>read(pid, signals)\<close> returns the next report.\<close>

definition read :: "nat \<Rightarrow> string list \<Rightarrow> 'r client \<Rightarrow> (error + 'r) \<times> 'r client" where
  "read p sigs c =
     (let c1 = c\<lparr>trace := trace c @ [Read p sigs]\<rparr> in
      if length (trace c) \<in> outages c then (Inl BackendUnavailableError, c1)
      else (Inr (readings c (served c)), c1\<lparr>served := Suc (served c)\<rparr>))"

section \<open>JCarbonCallback\<close>

record 'r JCarbonCallback =
  pid :: nat
  client :: "'r client"
  period_ms :: nat
  signals :: "string list"

definition start_jcarbon ::
  "('r, 'z) JCarbonCallback_scheme \<Rightarrow> error option \<times> ('r, 'z) JCarbonCallback_scheme" where
  "start_jcarbon self =
     (case purge (client self) of
        (Some e, c1) \<Rightarrow> (Some e, self\<lparr>client := c1\<rparr>)
      | (None, c1) \<Rightarrow>
          (case start (pid self) (period_ms self) c1 of
             (e, c2) \<Rightarrow> (e, self\<lparr>client := c2\<rparr>)))"

definition stop_jcarbon ::
  "('r, 'z) JCarbonCallback_scheme \<Rightarrow> (error + 'r) \<times> ('r, 'z) JCarbonCallback_scheme" where
  "stop_jcarbon self =
     (case stop (pid self) (client self) of
        (Some e, c1) \<Rightarrow> (Inl e, self\<lparr>client := c1\<rparr>)
      | (None, c1) \<Rightarrow>
          (case read (pid self) (signals self) c1 of
             (r, c2) \<Rightarrow> (r, self\<lparr>client := c2\<rparr>)))"

section \<open>JCarbonChunkingCallback\<close>

text \<open>
  \<^verbatim>\<open>self.time\<close> and \<^verbatim>\<open>self.last_report\<close> are first assigned in
  \<^verbatim>\<open>on_epoch_begin\<close>: \<open>None\<close> is the attribute not yet set (reading it raises
  \<^verbatim>\<open>AttributeError\<close>), \<open>Some None\<close> is Python's \<^verbatim>\<open>None\<close>. The readings of
  \<^verbatim>\<open>time.time()\<close> are arguments of the handlers, as real numbers of seconds. The
  conversion \<^verbatim>\<open>to_dataframe\<close> (module \<^verbatim>\<open>jcarbon.report\<close>) is an argument as well:
  it yields a Series or raises.
\<close>

record 'r JCarbonChunkingCallback = "'r JCarbonCallback" +
  reports :: "nat \<rightharpoonup> (sample \<times> nat) list"
  chunking_period_sec :: real
  time :: "real option"
  last_report :: "series option option"

text \<open>\<^verbatim>\<open>df.to_frame().assign(epoch=epoch).set_index('epoch', append=True)\<close>\<close>

definition tag_epoch :: "nat \<Rightarrow> 'a list \<Rightarrow> ('a \<times> nat) list" where
  "tag_epoch epoch df = map (\<lambda>r. (r, epoch)) df"

definition on_epoch_begin ::
  "nat \<Rightarrow> real \<Rightarrow> logs option \<Rightarrow> ('r, 'z) JCarbonChunkingCallback_scheme \<Rightarrow>
   error option \<times> logs option \<times> ('r, 'z) JCarbonChunkingCallback_scheme" where
  "on_epoch_begin epoch now logs self =
     (case start_jcarbon (self\<lparr>time := Some now, last_report := Some None\<rparr>) of
        (e, s1) \<Rightarrow> (e, logs, s1))"

text \<open>The statement shared by \<^verbatim>\<open>on_train_batch_end\<close> (lines 108-114) and
  \<^verbatim>\<open>on_epoch_end\<close> (lines 119-125): test \<^verbatim>\<open>self.last_report is None\<close>, stop and read
  the session, store the report or the concatenation. The new value of
  \<^verbatim>\<open>self.last_report\<close> is returned with the state.\<close>

definition accumulate ::
  "('r \<Rightarrow> error + series) \<Rightarrow> ('r, 'z) JCarbonChunkingCallback_scheme \<Rightarrow>
   (error + series) \<times> ('r, 'z) JCarbonChunkingCallback_scheme" where
  "accumulate to_dataframe self =
     (case last_report self of
        None \<Rightarrow> (Inl AttributeError, self)
      | Some None \<Rightarrow>
          (case stop_jcarbon self of
             (Inl e, s1) \<Rightarrow> (Inl e, s1)
           | (Inr r, s1) \<Rightarrow>
               (case to_dataframe r of
                  Inl e \<Rightarrow> (Inl e, s1)
                | Inr df \<Rightarrow> (Inr df, s1\<lparr>last_report := Some (Some df)\<rparr>)))
      | Some (Some acc) \<Rightarrow>
          (case stop_jcarbon self of
             (Inl e, s1) \<Rightarrow> (Inl e, s1)
           | (Inr r, s1) \<Rightarrow>
               (case to_dataframe r of
                  Inl e \<Rightarrow> (Inl e, s1)
                | Inr new \<Rightarrow>
                    (case pd_concat [acc, new] of
                       Inl e \<Rightarrow> (Inl e, s1)
                     | Inr df \<Rightarrow> (Inr df, s1\<lparr>last_report := Some (Some df)\<rparr>)))))"

definition on_train_batch_end ::
  "('r \<Rightarrow> error + series) \<Rightarrow> nat \<Rightarrow> real \<Rightarrow> logs option \<Rightarrow>
   ('r, 'z) JCarbonChunkingCallback_scheme \<Rightarrow>
   error option \<times> logs option \<times> ('r, 'z) JCarbonChunkingCallback_scheme" where
  "on_train_batch_end to_dataframe epoch cur logs self =
     (case time self of
        None \<Rightarrow> (Some AttributeError, logs, self)
      | Some t \<Rightarrow>
          if cur - t > chunking_period_sec self then
            (case accumulate to_dataframe (self\<lparr>time := Some cur\<rparr>) of
               (Inl e, s1) \<Rightarrow> (Some e, logs, s1)
             | (Inr df, s1) \<Rightarrow>
                 (case add_jcarbon_log df logs of
                    (Some e, logs1) \<Rightarrow> (Some e, logs1, s1)
                  | (None, logs1) \<Rightarrow>
                      (case start_jcarbon s1 of (e, s2) \<Rightarrow> (e, logs1, s2))))
          else (None, logs, self))"

definition on_epoch_end ::
  "('r \<Rightarrow> error + series) \<Rightarrow> nat \<Rightarrow> logs option \<Rightarrow>
   ('r, 'z) JCarbonChunkingCallback_scheme \<Rightarrow>
   error option \<times> logs option \<times> ('r, 'z) JCarbonChunkingCallback_scheme" where
  "on_epoch_end to_dataframe epoch logs self =
     (case accumulate to_dataframe self of
        (Inl e, s1) \<Rightarrow> (Some e, logs, s1)
      | (Inr df, s1) \<Rightarrow>
          (case add_jcarbon_log df logs of
             (Some e, logs1) \<Rightarrow> (Some e, logs1, s1)
           | (None, logs1) \<Rightarrow>
               (None, logs1, s1\<lparr>reports := (reports s1)(epoch \<mapsto> tag_epoch epoch df)\<rparr>)))"

section \<open>Lifecycle events\<close>

text \<open>The hooks the training loop fires, each with the \<^verbatim>\<open>logs\<close> argument it passes;
  the two hooks that read the clock carry the reading. \<^verbatim>\<open>on_train_batch_begin\<close> is
  not overridden by the chunking callbacks and does nothing.\<close>

datatype event =
    EpochBegin nat real "logs option"
  | TrainBatchBegin nat "logs option"
  | TrainBatchEnd nat real "logs option"
  | EpochEnd nat "logs option"

fun dispatch ::
  "('r \<Rightarrow> error + series) \<Rightarrow> event \<Rightarrow> ('r, 'z) JCarbonChunkingCallback_scheme \<Rightarrow>
   error option \<times> logs option \<times> ('r, 'z) JCarbonChunkingCallback_scheme" where
  "dispatch td (EpochBegin epoch now logs) self = on_epoch_begin epoch now logs self"
| "dispatch td (TrainBatchBegin batch logs) self = (None, logs, self)"
| "dispatch td (TrainBatchEnd batch cur logs) self = on_train_batch_end td batch cur logs self"
| "dispatch td (EpochEnd epoch logs) self = on_epoch_end td epoch logs self"

text \<open>The training loop delivers the events in order; an exception ends the run. The
  result holds the exception, the \<^verbatim>\<open>logs\<close> of every hook reached, and the callback
  object as it was left.\<close>

fun run ::
  "('r \<Rightarrow> error + series) \<Rightarrow> event list \<Rightarrow> ('r, 'z) JCarbonChunkingCallback_scheme \<Rightarrow>
   error option \<times> logs option list \<times> ('r, 'z) JCarbonChunkingCallback_scheme" where
  "run td [] self = (None, [], self)"
| "run td (ev # evs) self =
     (case dispatch td ev self of
        (Some e, l, s1) \<Rightarrow> (Some e, [l], s1)
      | (None, l, s1) \<Rightarrow>
          (case run td evs s1 of (e, ls, s2) \<Rightarrow> (e, l # ls, s2)))"

section \<open>JCarbonChunkingCallback2\<close>

record 'r JCarbonChunkingCallback2 = "'r JCarbonCallback" +
  reports2 :: "nat \<rightharpoonup> (sample \<times> nat) list"
  chunking_period_sec2 :: real
  time2 :: "real option"
  last_report2 :: "'r list option option"

definition on_epoch_begin2 ::
  "nat \<Rightarrow> real \<Rightarrow> logs option \<Rightarrow> ('r, 'z) JCarbonChunkingCallback2_scheme \<Rightarrow>
   error option \<times> logs option \<times> ('r, 'z) JCarbonChunkingCallback2_scheme" where
  "on_epoch_begin2 epoch now logs self =
     (case start_jcarbon (self\<lparr>time2 := Some now, last_report2 := Some None\<rparr>) of
        (e, s1) \<Rightarrow> (e, logs, s1))"

text \<open>The statement shared by lines 190-193 and 197-200: start a list with the report
  just read, or append the report to the list.\<close>

definition accumulate2 ::
  "('r, 'z) JCarbonChunkingCallback2_scheme \<Rightarrow>
   (error + 'r list) \<times> ('r, 'z) JCarbonChunkingCallback2_scheme" where
  "accumulate2 self =
     (case last_report2 self of
        None \<Rightarrow> (Inl AttributeError, self)
      | Some None \<Rightarrow>
          (case stop_jcarbon self of
             (Inl e, s1) \<Rightarrow> (Inl e, s1)
           | (Inr r, s1) \<Rightarrow> (Inr [r], s1\<lparr>last_report2 := Some (Some [r])\<rparr>))
      | Some (Some rs) \<Rightarrow>
          (case stop_jcarbon self of
             (Inl e, s1) \<Rightarrow> (Inl e, s1)
           | (Inr r, s1) \<Rightarrow> (Inr (rs @ [r]), s1\<lparr>last_report2 := Some (Some (rs @ [r]))\<rparr>)))"

definition on_train_batch_end2 ::
  "nat \<Rightarrow> real \<Rightarrow> logs option \<Rightarrow> ('r, 'z) JCarbonChunkingCallback2_scheme \<Rightarrow>
   error option \<times> logs option \<times> ('r, 'z) JCarbonChunkingCallback2_scheme" where
  "on_train_batch_end2 epoch cur logs self =
     (case time2 self of
        None \<Rightarrow> (Some AttributeError, logs, self)
      | Some t \<Rightarrow>
          if cur - t > chunking_period_sec2 self then
            (case accumulate2 (self\<lparr>time2 := Some cur\<rparr>) of
               (Inl e, s1) \<Rightarrow> (Some e, logs, s1)
             | (Inr rs, s1) \<Rightarrow>
                 (case start_jcarbon s1 of (e, s2) \<Rightarrow> (e, logs, s2)))
          else (None, logs, self))"

text \<open>\<^verbatim>\<open>list(map(to_dataframe, reports))\<close>: the reports are converted in order and
  the first conversion that raises ends the evaluation.\<close>

fun convert_all :: "('r \<Rightarrow> error + series) \<Rightarrow> 'r list \<Rightarrow> error + series list" where
  "convert_all to_dataframe [] = Inr []"
| "convert_all to_dataframe (r # rs) =
     (case to_dataframe r of
        Inl e \<Rightarrow> Inl e
      | Inr df \<Rightarrow>
          (case convert_all to_dataframe rs of
             Inl e \<Rightarrow> Inl e
           | Inr dfs \<Rightarrow> Inr (df # dfs)))"

definition on_epoch_end2 ::
  "('r \<Rightarrow> error + series) \<Rightarrow> nat \<Rightarrow> logs option \<Rightarrow>
   ('r, 'z) JCarbonChunkingCallback2_scheme \<Rightarrow>
   error option \<times> logs option \<times> ('r, 'z) JCarbonChunkingCallback2_scheme" where
  "on_epoch_end2 to_dataframe epoch logs self =
     (case accumulate2 self of
        (Inl e, s1) \<Rightarrow> (Some e, logs, s1)
      | (Inr rs, s1) \<Rightarrow>
          (case convert_all to_dataframe rs of
             Inl e \<Rightarrow> (Some e, logs, s1)
           | Inr dfs \<Rightarrow>
               (case pd_concat dfs of
                  Inl e \<Rightarrow> (Some e, logs, s1)
                | Inr df \<Rightarrow>
                    (None, logs,
                     s1\<lparr>reports2 := (reports2 s1)(epoch \<mapsto> tag_epoch epoch df)\<rparr>))))"

fun dispatch2 ::
  "('r \<Rightarrow> error + series) \<Rightarrow> event \<Rightarrow> ('r, 'z) JCarbonChunkingCallback2_scheme \<Rightarrow>
   error option \<times> logs option \<times> ('r, 'z) JCarbonChunkingCallback2_scheme" where
  "dispatch2 td (EpochBegin epoch now logs) self = on_epoch_begin2 epoch now logs self"
| "dispatch2 td (TrainBatchBegin batch logs) self = (None, logs, self)"
| "dispatch2 td (TrainBatchEnd batch cur logs) self = on_train_batch_end2 batch cur logs self"
| "dispatch2 td (EpochEnd epoch logs) self = on_epoch_end2 td epoch logs self"

fun run2 ::
  "('r \<Rightarrow> error + series) \<Rightarrow> event list \<Rightarrow> ('r, 'z) JCarbonChunkingCallback2_scheme \<Rightarrow>
   error option \<times> logs option list \<times> ('r, 'z) JCarbonChunkingCallback2_scheme" where
  "run2 td [] self = (None, [], self)"
| "run2 td (ev # evs) self =
     (case dispatch2 td ev self of
        (Some e, l, s1) \<Rightarrow> (Some e, [l], s1)
      | (None, l, s1) \<Rightarrow>
          (case run2 td evs s1 of (e, ls, s2) \<Rightarrow> (e, l # ls, s2)))"

section \<open>JCarbonExperimentCallback\<close>









section \<open>Constructors\<close>

definition DEFAULT_PERIOD_MS :: nat where
  "DEFAULT_PERIOD_MS = 10"

definition DEFAULT_PERIOD_SECS :: real where
  "DEFAULT_PERIOD_SECS = 2"

definition DEFAULT_SIGNALS :: "string list" where
  "DEFAULT_SIGNALS = [''nvml'', ''linux_process'', ''JOULES'', ''GRAMS_OF_CO2'']"

text \<open>Modelled from the spec: the state of the backend client on connection, absent
  from the sources like the client itself: no session open, no call issued yet.\<close>

definition JCarbonClient :: "(nat \<Rightarrow> 'r) \<Rightarrow> nat set \<Rightarrow> 'r client" where
  "JCarbonClient rd out =
     \<lparr>sessions = {}, trace = [], served = 0, readings = rd, outages = out\<rparr>"

text \<open>The \<^verbatim>\<open>__init__\<close> methods; \<open>p\<close> is \<^verbatim>\<open>os.getpid()\<close> and \<open>cl\<close> is
  \<^verbatim>\<open>JCarbonClient(addr)\<close>.\<close>

definition JCarbonChunkingCallback_init ::
  "nat \<Rightarrow> 'r client \<Rightarrow> nat \<Rightarrow> string list \<Rightarrow> real \<Rightarrow> 'r JCarbonChunkingCallback" where
  "JCarbonChunkingCallback_init p cl period sigs chunk =
     \<lparr>pid = p, client = cl, period_ms = period, signals = sigs,
      reports = Map.empty, chunking_period_sec = chunk, time = None, last_report = None\<rparr>"

definition JCarbonChunkingCallback2_init ::
  "nat \<Rightarrow> 'r client \<Rightarrow> nat \<Rightarrow> string list \<Rightarrow> real \<Rightarrow> 'r JCarbonChunkingCallback2" where
  "JCarbonChunkingCallback2_init p cl period sigs chunk =
     \<lparr>pid = p, client = cl, period_ms = period, signals = sigs,
      reports2 = Map.empty, chunking_period_sec2 = chunk, time2 = None, last_report2 = None\<rparr>"





section \<open>Notions of the specification\<close>

text \<open>A conversion that never raises.\<close>

definition returning :: "('r \<Rightarrow> series) \<Rightarrow> 'r \<Rightarrow> error + series" where
  "returning to_dataframe r = Inr (to_dataframe r)"

text \<open>The \<^verbatim>\<open>logs\<close> argument an event was fired with.\<close>

fun event_logs :: "event \<Rightarrow> logs option" where
  "event_logs (EpochBegin epoch now logs) = logs"
| "event_logs (TrainBatchBegin batch logs) = logs"
| "event_logs (TrainBatchEnd batch cur logs) = logs"
| "event_logs (EpochEnd epoch logs) = logs"

text \<open>The events between \<open>epochBegin\<close> and \<open>epochEnd\<close>.\<close>

fun is_batch_event :: "event \<Rightarrow> bool" where
  "is_batch_event (TrainBatchBegin batch logs) = True"
| "is_batch_event (TrainBatchEnd batch cur logs) = True"
| "is_batch_event _ = False"

text \<open>The number of chunk-boundary crossings among the events of an epoch, in the words
  of the specification: an iteration end crosses the boundary when more than
  \<open>chunkPeriod\<close> has elapsed since \<open>lastBoundaryTime\<close>, which it then resets.\<close>

fun crossings :: "real \<Rightarrow> real \<Rightarrow> event list \<Rightarrow> nat" where
  "crossings chunkPeriod lastBoundaryTime [] = 0"
| "crossings chunkPeriod lastBoundaryTime (TrainBatchEnd batch now logs # evs) =
     (if now - lastBoundaryTime > chunkPeriod then Suc (crossings chunkPeriod now evs)
      else crossings chunkPeriod lastBoundaryTime evs)"
| "crossings chunkPeriod lastBoundaryTime (ev # evs) =
     crossings chunkPeriod lastBoundaryTime evs"

text \<open>Every \<open>Start\<close> in a sequence of calls comes right after a \<open>Purge\<close>; \<open>prev\<close> is
  the call before the sequence, if any.\<close>

fun purge_precedes_start :: "call option \<Rightarrow> call list \<Rightarrow> bool" where
  "purge_precedes_start prev [] = True"
| "purge_precedes_start prev (c # cs) =
     ((if is_Start c then prev = Some Purge else True) \<and> purge_precedes_start (Some c) cs)"

text \<open>The digest in the words of the specification: one entry per group whose unit is
  energy, in group order, holding the sum of the group's strictly positive values under
  the component type joined with the short label of the unit.\<close>

definition energy_digest :: "series \<Rightarrow> (string \<times> real) list" where
  "energy_digest df =
     map (\<lambda>((ct, ci, u, src), g). (ct @ ''-J'', sum_list (filter (\<lambda>v. 0 < v) (map val g))))
       (filter (\<lambda>((ct, ci, u, src), g). u = ''JOULES'') (groupby df))"

text \<open>The energy groups of one component type, in iteration order.\<close>

definition joules_groups :: "string \<Rightarrow> series \<Rightarrow> (group_key \<times> series) list" where
  "joules_groups ct df =
     filter (\<lambda>((ct', ci, u, src), g). ct' = ct \<and> u = ''JOULES'') (groupby df)"

text \<open>The eager and the list-accumulating callback in corresponding states: the same
  base object, clock and stored reports, and the eager accumulation is the concatenation
  of the converted reports kept in the list.\<close>

definition corresponds ::
  "('r \<Rightarrow> series) \<Rightarrow> ('r, 'y) JCarbonChunkingCallback_scheme \<Rightarrow>
   ('r, 'z) JCarbonChunkingCallback2_scheme \<Rightarrow> bool" where
  "corresponds td s1 s2 \<longleftrightarrow>
     pid s1 = pid s2 \<and> client s1 = client s2 \<and> period_ms s1 = period_ms s2 \<and>
     signals s1 = signals s2 \<and> reports s1 = reports2 s2 \<and>
     chunking_period_sec s1 = chunking_period_sec2 s2 \<and> time s1 = time2 s2 \<and>
     (case last_report2 s2 of
        None \<Rightarrow> last_report s1 = None
      | Some None \<Rightarrow> last_report s1 = Some None
      | Some (Some rs) \<Rightarrow> rs \<noteq> [] \<and> last_report s1 = Some (Some (concat (map td rs))))"

text \<open>What \<^const>\<open>accumulate\<close> stores when the backend answers: the accumulation so far
  followed by the report the next \<^verbatim>\<open>read\<close> returns.\<close>

definition absorbed :: "('r \<Rightarrow> series) \<Rightarrow> ('r, 'z) JCarbonChunkingCallback_scheme \<Rightarrow> series" where
  "absorbed td s =
     (case last_report s of Some (Some acc) \<Rightarrow> acc | _ \<Rightarrow> []) @
     td (readings (client s) (served (client s)))"

text \<open>The calls of \<^const>\<open>start_jcarbon\<close> and \<^const>\<open>stop_jcarbon\<close> on the client
  alone.\<close>

definition start_calls :: "nat \<Rightarrow> nat \<Rightarrow> 'r client \<Rightarrow> error option \<times> 'r client" where
  "start_calls p period c =
     (case purge c of (Some e, c1) \<Rightarrow> (Some e, c1) | (None, c1) \<Rightarrow> start p period c1)"

definition stop_calls :: "nat \<Rightarrow> string list \<Rightarrow> 'r client \<Rightarrow> (error + 'r) \<times> 'r client" where
  "stop_calls p sigs c =
     (case stop p c of (Some e, c1) \<Rightarrow> (Inl e, c1) | (None, c1) \<Rightarrow> read p sigs c1)"

text \<open>The metrics maps the eager callback hands back, told from the run of the
  list-accumulating one: at an event at which a report was read (a chunk boundary
  crossed, or the epoch end) the map passed goes through \<^const>\<open>add_jcarbon_log\<close> with
  the concatenation of the reports accumulated so far; at every other event it comes
  back as passed.\<close>

fun eager_logs ::
  "('r \<Rightarrow> series) \<Rightarrow> event list \<Rightarrow> ('r, 'z) JCarbonChunkingCallback2_scheme \<Rightarrow>
   logs option list" where
  "eager_logs td [] s = []"
| "eager_logs td (ev # evs) s =
     (case dispatch2 (returning td) ev s of
        (e, l, s') \<Rightarrow>
          (if served (client s') = served (client s) then l
           else (case last_report2 s' of
                   Some (Some rs) \<Rightarrow> snd (add_jcarbon_log (concat (map td rs)) l)
                 | _ \<Rightarrow> l)) #
          (case e of None \<Rightarrow> eager_logs td evs s' | Some _ \<Rightarrow> []))"

text \<open>The accumulation a callback holds, empty before the first report of the epoch.\<close>

definition accumulated :: "('r, 'z) JCarbonChunkingCallback_scheme \<Rightarrow> series" where
  "accumulated s = (case last_report s of Some (Some acc) \<Rightarrow> acc | _ \<Rightarrow> [])"

text \<open>The next \<open>n\<close> reports the backend will serve, converted: the windows of an epoch
  with \<open>n - 1\<close> boundary crossings.\<close>

definition windows :: "('r \<Rightarrow> series) \<Rightarrow> 'r client \<Rightarrow> nat \<Rightarrow> series list" where
  "windows td c n = map (\<lambda>i. td (readings c (served c + i))) [0..<n]"




section \<open>Concrete scenarios\<close>

definition joules :: "string \<Rightarrow> string \<Rightarrow> real \<Rightarrow> sample" where
  "joules ct ci v =
     \<lparr>bucket = 0, component_type = ct, component_id = ci, unit = ''JOULES'',
      source = ''rapl'', val = v\<rparr>"

text \<open>The samples of the specification's digest example, on one CPU socket.\<close>

definition cpu_samples :: series where
  "cpu_samples = [joules ''CPU'' ''0'' 3, joules ''CPU'' ''0'' (- 1), joules ''CPU'' ''0'' 2]"

text \<open>Two sockets of the same component type.\<close>

definition two_socket_samples :: series where
  "two_socket_samples = [joules ''CPU'' ''0'' 3, joules ''CPU'' ''1'' 2, joules ''CPU'' ''0'' 7]"

definition loss_logs :: logs where
  "loss_logs = [(''loss'', 1 / 4)]"

text \<open>A backend whose every report is \<^const>\<open>cpu_samples\<close>, already a Series.\<close>

definition cpu_readings :: "nat \<Rightarrow> series" where
  "cpu_readings k = cpu_samples"

definition steady_callback :: "series JCarbonChunkingCallback" where
  "steady_callback =
     JCarbonChunkingCallback_init 7 (JCarbonClient cpu_readings {}) DEFAULT_PERIOD_MS
       DEFAULT_SIGNALS DEFAULT_PERIOD_SECS"

definition steady_callback2 :: "series JCarbonChunkingCallback2" where
  "steady_callback2 =
     JCarbonChunkingCallback2_init 7 (JCarbonClient cpu_readings {}) DEFAULT_PERIOD_MS
       DEFAULT_SIGNALS DEFAULT_PERIOD_SECS"

text \<open>The iteration ends of the specification's chunking example.\<close>

definition five_batches :: "event list" where
  "five_batches =
     [TrainBatchEnd 0 (5 / 10) None, TrainBatchEnd 1 1 None, TrainBatchEnd 2 (15 / 10) None,
      TrainBatchEnd 3 (21 / 10) None, TrainBatchEnd 4 (26 / 10) None]"

text \<open>A callback in mid-epoch whose backend fails at its fifth call, the
  \<^verbatim>\<open>purge\<close> of the first chunk boundary.\<close>

definition failing_callback :: "series JCarbonChunkingCallback" where
  "failing_callback =
     snd (snd (on_epoch_begin 0 0 None
       (JCarbonChunkingCallback_init 7 (JCarbonClient cpu_readings {4}) DEFAULT_PERIOD_MS
          DEFAULT_SIGNALS DEFAULT_PERIOD_SECS)))"

text \<open>A callback in mid-epoch whose backend fails at its third call, the
  \<^verbatim>\<open>stop\<close> of the first chunk boundary.\<close>

definition unanswered_stop_callback :: "series JCarbonChunkingCallback" where
  "unanswered_stop_callback =
     snd (snd (on_epoch_begin 0 0 None
       (JCarbonChunkingCallback_init 7 (JCarbonClient cpu_readings {2}) DEFAULT_PERIOD_MS
          DEFAULT_SIGNALS DEFAULT_PERIOD_SECS)))"




text \<open>A conversion that rejects every report.\<close>

definition malformed :: "series \<Rightarrow> error + series" where
  "malformed r = Inl MalformedReportError"

text \<open>A backend whose reports differ from one window to the next.\<close>

definition numbered_readings :: "nat \<Rightarrow> series" where
  "numbered_readings k = [joules ''CPU'' ''0'' (1 + real k)]"

text \<open>Two iteration ends, each crossing the chunk boundary of 2 seconds.\<close>

definition two_crossings :: "event list" where
  "two_crossings = [TrainBatchEnd 0 3 None, TrainBatchEnd 1 6 None]"


section \<open>Properties of the digest\<close>

lemma UNITS_JOULES: "map_of UNITS ''JOULES'' = Some ''J''"
  by (simp add: UNITS_def)

lemma positive_sum_values:
  "sum_list (filter (\<lambda>v. 0 < v) (map val g)) = positive_sum g"
  by (induction g) (simp_all add: positive_sum_def)

lemma log_groups_writes:
  "log_groups gs m =
     (None, fold (\<lambda>(k, v). AList.update k v)
        (map (\<lambda>((ct, ci, u, src), g). (ct @ ''-J'', sum_list (filter (\<lambda>v. 0 < v) (map val g))))
           (filter (\<lambda>((ct, ci, u, src), g). u = ''JOULES'') gs)) m)"
proof (induction gs arbitrary: m)
  case Nil
  show ?case by simp
next
  case (Cons p gs)
  obtain c i u s g where p: "p = ((c, i, u, s), g)" by (metis prod.exhaust)
  show ?case using Cons.IH p by (simp add: UNITS_JOULES positive_sum_values)
qed

lemma log_groups_no_error: "fst (log_groups gs m) = None"
  by (simp add: log_groups_writes)

lemma add_jcarbon_log_no_error: "fst (add_jcarbon_log df logs) = None"
proof (cases logs)
  case None
  then show ?thesis by (simp add: add_jcarbon_log_def)
next
  case (Some m)
  obtain e m' where r: "log_groups (groupby df) m = (e, m')" by (cases "log_groups (groupby df) m")
  with log_groups_no_error[of "groupby df" m] have "e = None" by simp
  with Some r show ?thesis by (simp add: add_jcarbon_log_def)
qed

lemma add_jcarbon_log_cases:
  obtains logs1 where "add_jcarbon_log df logs = (None, logs1)"
  using add_jcarbon_log_no_error[of df logs] by (cases "add_jcarbon_log df logs") auto

lemma groupby_keys: "map fst (groupby df) = sort (remdups (map key_of df))"
  by (simp add: groupby_def comp_def)

lemma groupby_set:
  "set (groupby df) = (\<lambda>k. (k, filter (\<lambda>r. key_of r = k) df)) ` key_of ` set df"
  by (simp add: groupby_def)

lemma log_groups_last:
  "snd (log_groups gs m) = m' \<Longrightarrow>
     map_of m' (ct @ ''-J'') =
       (case filter (\<lambda>((ct', ci, u, src), g). ct' = ct \<and> u = ''JOULES'') gs of
          [] \<Rightarrow> map_of m (ct @ ''-J'')
        | w # ws \<Rightarrow> Some (positive_sum (snd (last (w # ws)))))"
proof (induction gs arbitrary: m)
  case Nil
  then show ?case by simp
next
  case (Cons p gs)
  obtain c i u s g where p: "p = ((c, i, u, s), g)" by (metis prod.exhaust)
  show ?case
  proof (cases "u = ''JOULES''")
    case False
    with Cons.IH[of m] Cons.prems p show ?thesis by simp
  next
    case True
    let ?m1 = "AList.update (c @ ''-J'') (positive_sum g) m"
    have "snd (log_groups gs ?m1) = m'"
      using Cons.prems p True by (simp add: UNITS_JOULES)
    from Cons.IH[OF this] p True show ?thesis
      by (auto simp: update_conv' split: list.splits)
  qed
qed


lemma positive_sum_split:
  assumes "\<And>r. r \<in> set df \<Longrightarrow> \<not> (A r \<and> B r)"
  shows "positive_sum (filter (\<lambda>r. A r \<or> B r) df) =
         positive_sum (filter A df) + positive_sum (filter B df)"
  using assms by (induction df) (auto simp: positive_sum_def)

lemma positive_sum_groups:
  assumes "distinct ks"
  shows "sum_list (map (\<lambda>k. positive_sum (filter (\<lambda>r. key_of r = k) df)) ks) =
         positive_sum (filter (\<lambda>r. key_of r \<in> set ks) df)"
  using assms
proof (induction ks)
  case Nil
  show ?case by (simp add: positive_sum_def)
next
  case (Cons k ks)
  have "positive_sum (filter (\<lambda>r. key_of r = k \<or> key_of r \<in> set ks) df) =
        positive_sum (filter (\<lambda>r. key_of r = k) df) +
        positive_sum (filter (\<lambda>r. key_of r \<in> set ks) df)"
    using Cons.prems by (intro positive_sum_split) auto
  with Cons show ?case by simp
qed

lemma joules_groups_map:
  "joules_groups ct df =
     map (\<lambda>k. (k, filter (\<lambda>r. key_of r = k) df))
       (filter (\<lambda>(ct', ci, u, src). ct' = ct \<and> u = ''JOULES'') (sort (remdups (map key_of df))))"
  by (simp add: joules_groups_def groupby_def filter_map comp_def split_def)

lemma joules_groups_total:
  "sum_list (map (positive_sum \<circ> snd) (joules_groups ct df)) =
   positive_sum (filter (\<lambda>r. component_type r = ct \<and> unit r = ''JOULES'') df)"
proof -
  let ?ks = "filter (\<lambda>(ct', ci, u, src). ct' = ct \<and> u = ''JOULES'') (sort (remdups (map key_of df)))"
  have d: "distinct ?ks" by simp
  have "sum_list (map (positive_sum \<circ> snd) (joules_groups ct df)) =
        sum_list (map (\<lambda>k. positive_sum (filter (\<lambda>r. key_of r = k) df)) ?ks)"
    by (simp add: joules_groups_map comp_def)
  also have "\<dots> = positive_sum (filter (\<lambda>r. key_of r \<in> set ?ks) df)"
    by (rule positive_sum_groups[OF d])
  also have "filter (\<lambda>r. key_of r \<in> set ?ks) df =
             filter (\<lambda>r. component_type r = ct \<and> unit r = ''JOULES'') df"
    by (rule filter_cong) (auto simp: key_of_def)
  finally show ?thesis .
qed

lemma two_socket_groups:
  "joules_groups ''CPU'' two_socket_samples =
     [((''CPU'', ''0'', ''JOULES'', ''rapl''), [joules ''CPU'' ''0'' 3, joules ''CPU'' ''0'' 7]),
      ((''CPU'', ''1'', ''JOULES'', ''rapl''), [joules ''CPU'' ''1'' 2])]"
  by (simp add: joules_groups_def groupby_def two_socket_samples_def joules_def key_of_def
      less_eq_prod_def less_prod_def)

text \<open>
  Claim C4, as amended. For every accumulated report and every metrics map that is not
  empty, \<^const>\<open>add_jcarbon_log\<close> raises nothing and leaves the map with the entries of
  \<^const>\<open>energy_digest\<close> assigned in group order: the samples are grouped by
  (component type, component id, unit, source), one group per key that occurs, and every
  group whose unit is \<^verbatim>\<open>JOULES\<close> writes the sum of its strictly positive values under
  the key \<^verbatim>\<open><component_type>-J\<close>. For the samples (CPU, energy, +3), (CPU, energy, -1),
  (CPU, energy, +2) the value under \<^verbatim>\<open>CPU-J\<close> is 5. The claim as written, for every
  metrics map, fails on the empty map, which \<^verbatim>\<open>if logs:\<close> skips.
\<close>

theorem add_jcarbon_log_energy_digest:
  assumes "m \<noteq> []"
  shows "add_jcarbon_log df (Some m) =
           (None, Some (fold (\<lambda>(k, v). AList.update k v) (energy_digest df) m))
       \<and> set (groupby df) = (\<lambda>k. (k, filter (\<lambda>r. key_of r = k) df)) ` key_of ` set df
       \<and> distinct (map fst (groupby df))
       \<and> map_of (fold (\<lambda>(k, v). AList.update k v) (energy_digest cpu_samples) m) ''CPU-J'' = Some 5"
proof -
  have "energy_digest cpu_samples = [(''CPU-J'', 5)]"
    by (simp add: energy_digest_def groupby_def cpu_samples_def joules_def key_of_def)
  then have "map_of (fold (\<lambda>(k, v). AList.update k v) (energy_digest cpu_samples) m) ''CPU-J'' = Some 5"
    by (simp add: update_conv')
  moreover have "add_jcarbon_log df (Some m) =
           (None, Some (fold (\<lambda>(k, v). AList.update k v) (energy_digest df) m))"
    using assms by (simp add: add_jcarbon_log_def energy_digest_def log_groups_writes)
  moreover have "distinct (map fst (groupby df))"
    by (simp add: groupby_keys)
  ultimately show ?thesis by (simp add: groupby_set)
qed

theorem add_jcarbon_log_energy_digest_witness:
  "loss_logs \<noteq> [] \<and>
   add_jcarbon_log cpu_samples (Some loss_logs) = (None, Some [(''loss'', 1 / 4), (''CPU-J'', 5)])"
  using add_jcarbon_log_energy_digest[of loss_logs cpu_samples]
  by (simp add: loss_logs_def energy_digest_def groupby_def cpu_samples_def joules_def key_of_def)

theorem add_jcarbon_log_empty_logs_counterexample:
  "add_jcarbon_log cpu_samples (Some []) = (None, Some []) \<and> map_of [] ''CPU-J'' \<noteq> Some (5::real)"
  by (simp add: add_jcarbon_log_def)

text \<open>
  Claim C8. The key written by \<^const>\<open>add_jcarbon_log\<close> holds the component type and
  the unit label only. When the report has two or more energy groups of one component
  type (and the metrics map is one that \<^verbatim>\<open>if logs:\<close> accepts), they all write the key
  \<^verbatim>\<open><component_type>-J\<close>, and the value left there is the positive sum of the last
  such group in iteration order; the total over all groups of that component type
  exceeds it by the positive sums of the groups before the last.
\<close>

theorem add_jcarbon_log_last_group_wins:
  assumes "m \<noteq> []" and "2 \<le> length (joules_groups ct df)"
  shows "\<exists>m'. add_jcarbon_log df (Some m) = (None, Some m') \<and>
           map_of m' (ct @ ''-J'') = Some (positive_sum (snd (last (joules_groups ct df)))) \<and>
           positive_sum (filter (\<lambda>r. component_type r = ct \<and> unit r = ''JOULES'') df) =
             sum_list (map (positive_sum \<circ> snd) (butlast (joules_groups ct df))) +
             positive_sum (snd (last (joules_groups ct df)))"
proof -
  obtain m' where run: "log_groups (groupby df) m = (None, m')"
    using log_groups_no_error[of "groupby df" m] by (cases "log_groups (groupby df) m") auto
  from assms(2) have ne: "joules_groups ct df \<noteq> []" by auto
  then obtain w ws where ws: "joules_groups ct df = w # ws" by (cases "joules_groups ct df") auto
  have "map_of m' (ct @ ''-J'') = Some (positive_sum (snd (last (joules_groups ct df))))"
    using log_groups_last[of "groupby df" m m' ct] run ws
    by (simp add: joules_groups_def)
  moreover have "add_jcarbon_log df (Some m) = (None, Some m')"
    using assms(1) run by (simp add: add_jcarbon_log_def)
  moreover have "sum_list (map (positive_sum \<circ> snd) (joules_groups ct df)) =
      sum_list (map (positive_sum \<circ> snd) (butlast (joules_groups ct df))) +
      positive_sum (snd (last (joules_groups ct df)))"
    using append_butlast_last_id[OF ne, symmetric]
    by (metis (no_types, lifting) comp_apply list.simps(8,9) map_append sum_list.Cons sum_list.Nil
        sum_list_append add.right_neutral)
  ultimately show ?thesis by (simp add: joules_groups_total)
qed

theorem add_jcarbon_log_last_group_wins_witness:
  "loss_logs \<noteq> [] \<and> 2 \<le> length (joules_groups ''CPU'' two_socket_samples) \<and>
   (\<exists>m'. add_jcarbon_log two_socket_samples (Some loss_logs) = (None, Some m') \<and>
      map_of m' ''CPU-J'' = Some 2 \<and>
      positive_sum (filter (\<lambda>r. component_type r = ''CPU'' \<and> unit r = ''JOULES'') two_socket_samples) = 10 + 2)"
  using add_jcarbon_log_last_group_wins[of loss_logs "''CPU''" two_socket_samples]
  by (simp add: two_socket_groups loss_logs_def positive_sum_def joules_def)


section \<open>An epoch on a backend that answers\<close>

lemma start_jcarbon_ok:
  assumes "outages (client s) = {}" and "pid s \<notin> sessions (client s)"
  shows "start_jcarbon s =
     (None, s\<lparr>client := (client s)\<lparr>trace := trace (client s) @ [Purge, Start (pid s) (period_ms s)],
                                   sessions := insert (pid s) (sessions (client s))\<rparr>\<rparr>)"
  using assms by (simp add: start_jcarbon_def purge_def start_def Let_def)

lemma stop_jcarbon_ok:
  assumes "outages (client s) = {}" and "pid s \<in> sessions (client s)"
  shows "stop_jcarbon s =
     (Inr (readings (client s) (served (client s))),
      s\<lparr>client := (client s)\<lparr>trace := trace (client s) @ [Stop (pid s), Read (pid s) (signals s)],
                             sessions := sessions (client s) - {pid s},
                             served := Suc (served (client s))\<rparr>\<rparr>)"
  using assms by (simp add: stop_jcarbon_def stop_def read_def Let_def)

lemma on_epoch_begin_ok:
  assumes "outages (client s) = {}" and "pid s \<notin> sessions (client s)"
  shows "on_epoch_begin e t0 l0 s =
     (None, l0, s\<lparr>time := Some t0, last_report := Some None,
        client := (client s)\<lparr>trace := trace (client s) @ [Purge, Start (pid s) (period_ms s)],
                                   sessions := insert (pid s) (sessions (client s))\<rparr>\<rparr>)"
  using assms by (simp add: on_epoch_begin_def start_jcarbon_ok)

lemma accumulate_ok:
  assumes "outages (client s) = {}" and "pid s \<in> sessions (client s)" and "last_report s = Some lr"
  shows "accumulate (returning td) s =
     (Inr (absorbed td s), s\<lparr>last_report := Some (Some (absorbed td s)),
        client := (client s)\<lparr>trace := trace (client s) @ [Stop (pid s), Read (pid s) (signals s)],
                             sessions := sessions (client s) - {pid s},
                             served := Suc (served (client s))\<rparr>\<rparr>)"
  using assms by (cases lr) (simp_all add: accumulate_def returning_def stop_jcarbon_ok pd_concat_def absorbed_def)

lemma batch_end_fires:
  assumes "outages (client s) = {}" and "pid s \<in> sessions (client s)" and "last_report s = Some lr"
    and "time s = Some t" and "cur - t > chunking_period_sec s"
  shows "on_train_batch_end (returning td) b cur l s =
     (None, snd (add_jcarbon_log (absorbed td s) l),
      s\<lparr>time := Some cur, last_report := Some (Some (absorbed td s)),
        client := (client s)\<lparr>trace := trace (client s) @
              [Stop (pid s), Read (pid s) (signals s), Purge, Start (pid s) (period_ms s)],
                             served := Suc (served (client s))\<rparr>\<rparr>)"
proof -
  let ?s1 = "s\<lparr>time := Some cur\<rparr>"
  have acc: "accumulate (returning td) ?s1 =
     (Inr (absorbed td s), ?s1\<lparr>last_report := Some (Some (absorbed td s)),
        client := (client s)\<lparr>trace := trace (client s) @ [Stop (pid s), Read (pid s) (signals s)],
                             sessions := sessions (client s) - {pid s},
                             served := Suc (served (client s))\<rparr>\<rparr>)"
    using accumulate_ok[of ?s1 lr td] assms by (simp add: absorbed_def)
  obtain l1 where l1: "add_jcarbon_log (absorbed td s) l = (None, l1)" by (rule add_jcarbon_log_cases)
  have ins: "insert (pid s) (sessions (client s) - {pid s}) = sessions (client s)"
    using assms(2) by auto
  show ?thesis
    using assms acc l1 ins by (simp add: on_train_batch_end_def start_jcarbon_ok)
qed

lemma epoch_end_ok:
  assumes "outages (client s) = {}" and "pid s \<in> sessions (client s)" and "last_report s = Some lr"
  shows "on_epoch_end (returning td) e l s =
     (None, snd (add_jcarbon_log (absorbed td s) l),
      s\<lparr>last_report := Some (Some (absorbed td s)),
        client := (client s)\<lparr>trace := trace (client s) @ [Stop (pid s), Read (pid s) (signals s)],
                             sessions := sessions (client s) - {pid s},
                             served := Suc (served (client s))\<rparr>,
        reports := (reports s)(e \<mapsto> tag_epoch e (absorbed td s))\<rparr>)"
proof -
  obtain l1 where l1: "add_jcarbon_log (absorbed td s) l = (None, l1)" by (rule add_jcarbon_log_cases)
  show ?thesis
    using assms l1 by (simp add: on_epoch_end_def accumulate_ok)
qed

lemma batch_end_idle:
  assumes "time s = Some t" and "\<not> cur - t > chunking_period_sec s"
  shows "on_train_batch_end (returning td) b cur l s = (None, l, s)"
  using assms by (simp add: on_train_batch_end_def)


lemma rotate_chunks:
  "concat (replicate n (ys @ xs)) @ ys = ys @ concat (replicate n (xs @ ys))"
  by (induction n) simp_all

lemma count_chunks:
  "length (filter P (concat (replicate n xs))) = n * length (filter P xs)"
  by (induction n) simp_all

lemma batches_ok:
  assumes "list_all is_batch_event bs"
    and "outages (client s) = {}" and "pid s \<in> sessions (client s)"
    and "last_report s \<noteq> None" and "time s = Some t"
  shows "\<exists>ls s'. run (returning td) bs s = (None, ls, s') \<and>
     outages (client s') = {} \<and> pid s' \<in> sessions (client s') \<and>
     last_report s' \<noteq> None \<and>
     pid s' = pid s \<and> period_ms s' = period_ms s \<and> signals s' = signals s \<and>
     sessions (client s') = sessions (client s) \<and>
     trace (client s') = trace (client s) @
       concat (replicate (crossings (chunking_period_sec s) t bs)
         [Stop (pid s), Read (pid s) (signals s), Purge, Start (pid s) (period_ms s)])"
  using assms
proof (induction bs arbitrary: s t)
  case Nil
  then show ?case by simp
next
  case (Cons ev bs)
  from Cons.prems(4) obtain lr where lr: "last_report s = Some lr" by auto
  show ?case
  proof (cases ev)
    case (EpochBegin e now l)
    with Cons.prems(1) show ?thesis by simp
  next
    case (EpochEnd e l)
    with Cons.prems(1) show ?thesis by simp
  next
    case (TrainBatchBegin b l)
    from Cons.prems have "list_all is_batch_event bs" by simp
    from Cons.IH[OF this Cons.prems(2,3,4,5)] TrainBatchBegin
    show ?thesis by (auto simp: split_def)
  next
    case (TrainBatchEnd b cur l)
    from Cons.prems have bs: "list_all is_batch_event bs" by simp
    show ?thesis
    proof (cases "cur - t > chunking_period_sec s")
      case False
      have step: "dispatch (returning td) ev s = (None, l, s)"
        using TrainBatchEnd False Cons.prems(5) by (simp add: batch_end_idle)
      from Cons.IH[OF bs Cons.prems(2,3,4,5)] step TrainBatchEnd False
      show ?thesis by (auto simp: split_def)
    next
      case True
      let ?s1 = "s\<lparr>time := Some cur, last_report := Some (Some (absorbed td s)),
        client := (client s)\<lparr>trace := trace (client s) @
              [Stop (pid s), Read (pid s) (signals s), Purge, Start (pid s) (period_ms s)],
                             served := Suc (served (client s))\<rparr>\<rparr>"
      have step: "dispatch (returning td) ev s = (None, snd (add_jcarbon_log (absorbed td s) l), ?s1)"
        using TrainBatchEnd True Cons.prems(2,3,5) lr by (simp add: batch_end_fires)
      have "\<exists>ls s'. run (returning td) bs ?s1 = (None, ls, s') \<and>
         outages (client s') = {} \<and> pid s' \<in> sessions (client s') \<and>
         last_report s' \<noteq> None \<and>
         pid s' = pid ?s1 \<and> period_ms s' = period_ms ?s1 \<and> signals s' = signals ?s1 \<and>
         sessions (client s') = sessions (client ?s1) \<and>
         trace (client s') = trace (client ?s1) @
           concat (replicate (crossings (chunking_period_sec ?s1) cur bs)
             [Stop (pid ?s1), Read (pid ?s1) (signals ?s1), Purge, Start (pid ?s1) (period_ms ?s1)])"
        using Cons.prems(2,3) by (intro Cons.IH[OF bs]) simp_all
      then obtain ls s' where r: "run (returning td) bs ?s1 = (None, ls, s')"
         "outages (client s') = {}" "pid s' \<in> sessions (client s')"
         "last_report s' \<noteq> None"
         "pid s' = pid s" "period_ms s' = period_ms s" "signals s' = signals s"
         "sessions (client s') = sessions (client s)"
         "trace (client s') = trace (client s) @
              [Stop (pid s), Read (pid s) (signals s), Purge, Start (pid s) (period_ms s)] @
           concat (replicate (crossings (chunking_period_sec s) cur bs)
             [Stop (pid s), Read (pid s) (signals s), Purge, Start (pid s) (period_ms s)])"
        by auto
      have "run (returning td) (ev # bs) s = (None, snd (add_jcarbon_log (absorbed td s) l) # ls, s')"
        using step r(1) by simp
      with r TrainBatchEnd True show ?thesis by simp
    qed
  qed
qed


lemma run_append:
  "run td (xs @ ys) s =
     (case run td xs s of
        (Some e, ls, s1) \<Rightarrow> (Some e, ls, s1)
      | (None, ls, s1) \<Rightarrow> (case run td ys s1 of (e, ls', s2) \<Rightarrow> (e, ls @ ls', s2)))"
proof (induction xs arbitrary: s)
  case Nil
  show ?case by (simp add: split_def)
next
  case (Cons ev xs)
  show ?case
    by (cases "dispatch td ev s" rule: prod_cases3)
       (auto simp: Cons.IH split: option.splits prod.splits)
qed

lemma epoch_ok:
  assumes "outages (client s) = {}" and "pid s \<notin> sessions (client s)"
    and "list_all is_batch_event bs"
  shows "\<exists>ls s'. run (returning td) (EpochBegin e t0 l0 # bs @ [EpochEnd e l1]) s = (None, ls, s') \<and>
     sessions (client s') = sessions (client s) \<and>
     trace (client s') = trace (client s) @
       concat (replicate (Suc (crossings (chunking_period_sec s) t0 bs))
         [Purge, Start (pid s) (period_ms s), Stop (pid s), Read (pid s) (signals s)])"
proof -
  let ?s0 = "s\<lparr>time := Some t0, last_report := Some None,
        client := (client s)\<lparr>trace := trace (client s) @ [Purge, Start (pid s) (period_ms s)],
                                   sessions := insert (pid s) (sessions (client s))\<rparr>\<rparr>"
  let ?chunk = "[Stop (pid s), Read (pid s) (signals s), Purge, Start (pid s) (period_ms s)]"
  let ?n = "crossings (chunking_period_sec s) t0 bs"
  have b: "dispatch (returning td) (EpochBegin e t0 l0) s = (None, l0, ?s0)"
    using assms(1,2) by (simp add: on_epoch_begin_ok)
  have "\<exists>ls s'. run (returning td) bs ?s0 = (None, ls, s') \<and>
     outages (client s') = {} \<and> pid s' \<in> sessions (client s') \<and>
     last_report s' \<noteq> None \<and>
     pid s' = pid ?s0 \<and> period_ms s' = period_ms ?s0 \<and> signals s' = signals ?s0 \<and>
     sessions (client s') = sessions (client ?s0) \<and>
     trace (client s') = trace (client ?s0) @
       concat (replicate (crossings (chunking_period_sec ?s0) t0 bs)
         [Stop (pid ?s0), Read (pid ?s0) (signals ?s0), Purge, Start (pid ?s0) (period_ms ?s0)])"
    using assms by (intro batches_ok) simp_all
  then obtain ls s1 where m: "run (returning td) bs ?s0 = (None, ls, s1)"
     "outages (client s1) = {}" "pid s1 \<in> sessions (client s1)" "last_report s1 \<noteq> None"
     "pid s1 = pid s" "period_ms s1 = period_ms s" "signals s1 = signals s"
     "sessions (client s1) = insert (pid s) (sessions (client s))"
     "trace (client s1) = trace (client s) @ [Purge, Start (pid s) (period_ms s)] @
        concat (replicate ?n ?chunk)"
    by auto
  from m(4) obtain lr where lr: "last_report s1 = Some lr" by auto
  let ?s2 = "s1\<lparr>last_report := Some (Some (absorbed td s1)),
        client := (client s1)\<lparr>trace := trace (client s1) @ [Stop (pid s1), Read (pid s1) (signals s1)],
                             sessions := sessions (client s1) - {pid s1},
                             served := Suc (served (client s1))\<rparr>,
        reports := (reports s1)(e \<mapsto> tag_epoch e (absorbed td s1))\<rparr>"
  have en: "run (returning td) [EpochEnd e l1] s1 = (None, [snd (add_jcarbon_log (absorbed td s1) l1)], ?s2)"
    using epoch_end_ok[OF m(2,3) lr, of td e l1] by simp
  have r: "run (returning td) (EpochBegin e t0 l0 # bs @ [EpochEnd e l1]) s =
      (None, l0 # ls @ [snd (add_jcarbon_log (absorbed td s1) l1)], ?s2)"
  proof -
    have "run (returning td) (bs @ [EpochEnd e l1]) ?s0 =
        (None, ls @ [snd (add_jcarbon_log (absorbed td s1) l1)], ?s2)"
      using m(1) en by (simp add: run_append del: run.simps)
    with b show ?thesis by simp
  qed
  have tr: "trace (client ?s2) = trace (client s) @
       concat (replicate (Suc ?n)
         [Purge, Start (pid s) (period_ms s), Stop (pid s), Read (pid s) (signals s)])"
    using m(5,6,7,9)
      rotate_chunks[of ?n "[Stop (pid s), Read (pid s) (signals s)]" "[Purge, Start (pid s) (period_ms s)]"]
    by simp
  have se: "sessions (client ?s2) = sessions (client s)"
    using m(5,8) assms(2) by auto
  from r tr se show ?thesis by blast
qed


lemmas scenario_defs =
  steady_callback_def JCarbonChunkingCallback_init_def JCarbonClient_def
  DEFAULT_PERIOD_MS_def DEFAULT_SIGNALS_def DEFAULT_PERIOD_SECS_def five_batches_def

text \<open>
  Claim C1. Let an epoch be driven through \<^verbatim>\<open>JCarbonChunkingCallback\<close> in the order
  epoch begin, batch events, epoch end, on a backend that answers every call and holds
  no session for the process at the start. Then the run raises nothing; the calls
  issued are one block purge, start, stop, read for the epoch and one more for each
  iteration end at which the chunk boundary fired, so the start calls and the stop calls
  both number 1 plus the boundary crossings, every start is followed by its stop, and no
  session is open when the epoch end returns.
\<close>

theorem chunking_epoch_start_stop_pairs:
  assumes "outages (client self) = {}" and "pid self \<notin> sessions (client self)"
    and "list_all is_batch_event bs"
  shows "\<exists>ls self' tr.
     run (returning td) (EpochBegin e t0 l0 # bs @ [EpochEnd e l1]) self = (None, ls, self') \<and>
     trace (client self') = trace (client self) @ tr \<and>
     length (filter is_Start tr) = 1 + crossings (chunking_period_sec self) t0 bs \<and>
     length (filter is_Stop tr) = 1 + crossings (chunking_period_sec self) t0 bs \<and>
     tr = concat (replicate (1 + crossings (chunking_period_sec self) t0 bs)
            [Purge, Start (pid self) (period_ms self), Stop (pid self),
             Read (pid self) (signals self)]) \<and>
     pid self \<notin> sessions (client self')"
proof -
  from epoch_ok[OF assms, of td e t0 l0 l1] obtain ls s' where
    r: "run (returning td) (EpochBegin e t0 l0 # bs @ [EpochEnd e l1]) self = (None, ls, s')"
       "sessions (client s') = sessions (client self)"
       "trace (client s') = trace (client self) @
          concat (replicate (Suc (crossings (chunking_period_sec self) t0 bs))
            [Purge, Start (pid self) (period_ms self), Stop (pid self),
             Read (pid self) (signals self)])"
    by blast
  have "length (filter is_Start (concat (replicate (Suc (crossings (chunking_period_sec self) t0 bs))
            [Purge, Start (pid self) (period_ms self), Stop (pid self),
             Read (pid self) (signals self)]))) = 1 + crossings (chunking_period_sec self) t0 bs"
    unfolding count_chunks by simp
  moreover have "length (filter is_Stop (concat (replicate (Suc (crossings (chunking_period_sec self) t0 bs))
            [Purge, Start (pid self) (period_ms self), Stop (pid self),
             Read (pid self) (signals self)]))) = 1 + crossings (chunking_period_sec self) t0 bs"
    unfolding count_chunks by simp
  ultimately show ?thesis using r assms(2) by auto
qed

theorem chunking_epoch_start_stop_pairs_witness:
  "outages (client steady_callback) = {} \<and>
   pid steady_callback \<notin> sessions (client steady_callback) \<and>
   list_all is_batch_event five_batches \<and>
   (\<exists>ls self' tr.
     run (returning id) (EpochBegin 0 0 None # five_batches @ [EpochEnd 0 None]) steady_callback =
       (None, ls, self') \<and>
     trace (client self') = trace (client steady_callback) @ tr \<and>
     length (filter is_Start tr) = 2 \<and> length (filter is_Stop tr) = 2 \<and>
     pid steady_callback \<notin> sessions (client self'))"
proof -
  have h: "outages (client steady_callback) = {}"
    "pid steady_callback \<notin> sessions (client steady_callback)"
    "list_all is_batch_event five_batches"
    by (simp_all add: scenario_defs)
  have c: "crossings (chunking_period_sec steady_callback) 0 five_batches = 1"
    by (simp add: scenario_defs)
  from chunking_epoch_start_stop_pairs[OF h, of id 0 0 None None] c h
  show ?thesis by auto
qed


text \<open>
  Claim C6. An epoch without iterations, epoch begin directly followed by epoch end on a
  backend that answers, issues exactly one start and one stop, and stores exactly one
  report under the epoch: the conversion of the one report read. No batch handler runs,
  so the boundary test is never evaluated: the clock field keeps the reading of the
  epoch begin and the result is the same for every chunking period.
\<close>

theorem zero_iteration_epoch:
  assumes "outages (client self) = {}" and "pid self \<notin> sessions (client self)"
  shows "run (returning td) [EpochBegin e t0 l0, EpochEnd e l1] self =
     (None,
      [l0, snd (add_jcarbon_log (td (readings (client self) (served (client self)))) l1)],
      self\<lparr>time := Some t0,
           last_report := Some (Some (td (readings (client self) (served (client self))))),
           client := (client self)
             \<lparr>trace := trace (client self) @
                [Purge, Start (pid self) (period_ms self), Stop (pid self),
                 Read (pid self) (signals self)],
              served := Suc (served (client self))\<rparr>,
           reports := (reports self)
             (e \<mapsto> tag_epoch e (td (readings (client self) (served (client self)))))\<rparr>)"
proof -
  let ?s0 = "self\<lparr>time := Some t0, last_report := Some None,
        client := (client self)\<lparr>trace := trace (client self) @ [Purge, Start (pid self) (period_ms self)],
                                   sessions := insert (pid self) (sessions (client self))\<rparr>\<rparr>"
  have b: "on_epoch_begin e t0 l0 self = (None, l0, ?s0)"
    using assms by (rule on_epoch_begin_ok)
  have a: "absorbed td ?s0 = td (readings (client self) (served (client self)))"
    by (simp add: absorbed_def)
  have "on_epoch_end (returning td) e l1 ?s0 =
     (None, snd (add_jcarbon_log (absorbed td ?s0) l1),
      ?s0\<lparr>last_report := Some (Some (absorbed td ?s0)),
        client := (client ?s0)\<lparr>trace := trace (client ?s0) @ [Stop (pid ?s0), Read (pid ?s0) (signals ?s0)],
                             sessions := sessions (client ?s0) - {pid ?s0},
                             served := Suc (served (client ?s0))\<rparr>,
        reports := (reports ?s0)(e \<mapsto> tag_epoch e (absorbed td ?s0))\<rparr>)"
    using assms by (intro epoch_end_ok[where lr = None]) simp_all
  with b a assms(2) show ?thesis by simp
qed

theorem zero_iteration_epoch_witness:
  "outages (client steady_callback) = {} \<and>
   pid steady_callback \<notin> sessions (client steady_callback) \<and>
   run (returning id) [EpochBegin 0 0 None, EpochEnd 0 (Some loss_logs)] steady_callback =
     (None, [None, Some [(''loss'', 1 / 4), (''CPU-J'', 5)]],
      steady_callback\<lparr>time := Some 0, last_report := Some (Some cpu_samples),
        client := (client steady_callback)
          \<lparr>trace := [Purge, Start 7 10, Stop 7, Read 7 DEFAULT_SIGNALS], served := 1\<rparr>,
        reports := [0 \<mapsto> tag_epoch 0 cpu_samples]\<rparr>)"
proof -
  have h: "outages (client steady_callback) = {}"
    "pid steady_callback \<notin> sessions (client steady_callback)"
    by (simp_all add: scenario_defs)
  have d: "add_jcarbon_log cpu_samples (Some loss_logs) =
      (None, Some [(''loss'', 1 / 4), (''CPU-J'', 5)])"
    by (simp add: add_jcarbon_log_def groupby_def cpu_samples_def joules_def key_of_def
        positive_sum_def UNITS_def loss_logs_def)
  from zero_iteration_epoch[OF h, of id 0 0 None "Some loss_logs"] h d
  show ?thesis by (simp add: scenario_defs cpu_readings_def)
qed

text \<open>
  Claim C2. With a chunking period of 2 seconds and the clock field set to 0 at the
  epoch begin, iteration ends at 0.5, 1.0, 1.5, 2.1 and 2.6 cross the boundary exactly
  once: the test \<^verbatim>\<open>curr - self.time > self.chunking_period_sec\<close> fires at 2.1, where
  the session is stopped, read and restarted and the clock field becomes 2.1, and at no
  other event, where the calls issued and the clock field stay as they were.
\<close>

theorem chunk_boundary_fires_once:
  "crossings 2 0 five_batches = 1 \<and>
   map (\<lambda>k. trace (client (snd (snd
          (run (returning td) (EpochBegin e 0 l # take k five_batches)
             (JCarbonChunkingCallback_init p (JCarbonClient rd {}) period sg 2))))))
       [0, 1, 2, 3, 4, 5] =
     [[Purge, Start p period], [Purge, Start p period], [Purge, Start p period],
      [Purge, Start p period],
      [Purge, Start p period, Stop p, Read p sg, Purge, Start p period],
      [Purge, Start p period, Stop p, Read p sg, Purge, Start p period]] \<and>
   map (\<lambda>k. time (snd (snd
          (run (returning td) (EpochBegin e 0 l # take k five_batches)
             (JCarbonChunkingCallback_init p (JCarbonClient rd {}) period sg 2)))))
       [0, 1, 2, 3, 4, 5] =
     [Some 0, Some 0, Some 0, Some 0, Some (21 / 10), Some (21 / 10)]"
  by (simp add: five_batches_def JCarbonChunkingCallback_init_def JCarbonClient_def
      on_epoch_begin_def on_train_batch_end_def accumulate_def returning_def start_jcarbon_def
      stop_jcarbon_def purge_def start_def stop_def read_def Let_def add_jcarbon_log_def
      pd_concat_def)


section \<open>Any run: purge before start, and failures at a boundary\<close>

lemma purge_precedes_start_append:
  "purge_precedes_start prev (xs @ ys) \<longleftrightarrow>
     purge_precedes_start prev xs \<and>
     purge_precedes_start (if xs = [] then prev else Some (last xs)) ys"
  by (induction xs arbitrary: prev) auto

lemma start_jcarbon_trace:
  "trace (client (snd (start_jcarbon s))) = trace (client s) @ [Purge] \<or>
   trace (client (snd (start_jcarbon s))) =
     trace (client s) @ [Purge, Start (pid s) (period_ms s)]"
  by (simp add: start_jcarbon_def purge_def start_def Let_def)

lemma stop_jcarbon_trace:
  "trace (client (snd (stop_jcarbon s))) = trace (client s) @ [Stop (pid s)] \<or>
   trace (client (snd (stop_jcarbon s))) =
     trace (client s) @ [Stop (pid s), Read (pid s) (signals s)]"
  by (simp add: stop_jcarbon_def stop_def read_def Let_def)

lemma start_jcarbon_purged:
  assumes "purge_precedes_start prev (trace (client s))"
  shows "purge_precedes_start prev (trace (client (snd (start_jcarbon s))))"
  using assms start_jcarbon_trace[of s] by (auto simp: purge_precedes_start_append)

lemma stop_jcarbon_purged:
  assumes "purge_precedes_start prev (trace (client s))"
  shows "purge_precedes_start prev (trace (client (snd (stop_jcarbon s))))"
  using assms stop_jcarbon_trace[of s] by (auto simp: purge_precedes_start_append)

lemma accumulate_purged:
  assumes "purge_precedes_start prev (trace (client s))"
  shows "purge_precedes_start prev (trace (client (snd (accumulate td s))))"
proof -
  have "client (snd (accumulate td s)) = client s \<or>
        client (snd (accumulate td s)) = client (snd (stop_jcarbon s))"
    by (auto simp: accumulate_def pd_concat_def split: option.splits prod.splits sum.splits)
  with assms stop_jcarbon_purged[OF assms] show ?thesis by auto
qed

lemma on_epoch_begin_purged:
  assumes "purge_precedes_start prev (trace (client s))"
  shows "purge_precedes_start prev (trace (client (snd (snd (on_epoch_begin e now l s)))))"
proof -
  let ?s1 = "s\<lparr>time := Some now, last_report := Some None\<rparr>"
  have "purge_precedes_start prev (trace (client ?s1))" using assms by simp
  from start_jcarbon_purged[OF this] show ?thesis
    by (simp add: on_epoch_begin_def split_def)
qed

lemma on_train_batch_end_purged:
  assumes "purge_precedes_start prev (trace (client s))"
  shows "purge_precedes_start prev (trace (client (snd (snd (on_train_batch_end td b cur l s)))))"
proof -
  let ?s1 = "s\<lparr>time := Some cur\<rparr>"
  have 1: "purge_precedes_start prev (trace (client ?s1))" using assms by simp
  note 2 = accumulate_purged[OF 1, of td]
  note 3 = start_jcarbon_purged[OF 2]
  from assms 2 3 show ?thesis
    by (auto simp: on_train_batch_end_def split: option.splits prod.splits sum.splits)
qed

lemma on_epoch_end_purged:
  assumes "purge_precedes_start prev (trace (client s))"
  shows "purge_precedes_start prev (trace (client (snd (snd (on_epoch_end td e l s)))))"
  using accumulate_purged[OF assms, of td]
  by (auto simp: on_epoch_end_def split: option.splits prod.splits sum.splits)

lemma dispatch_purged:
  assumes "purge_precedes_start prev (trace (client s))"
  shows "purge_precedes_start prev (trace (client (snd (snd (dispatch td ev s)))))"
  using assms
  by (cases ev) (simp_all add: on_epoch_begin_purged on_train_batch_end_purged on_epoch_end_purged)

lemma run_purged:
  assumes "purge_precedes_start prev (trace (client s))"
  shows "purge_precedes_start prev (trace (client (snd (snd (run td evs s)))))"
  using assms
proof (induction evs arbitrary: s)
  case Nil
  then show ?case by simp
next
  case (Cons ev evs)
  obtain e l s1 where d: "dispatch td ev s = (e, l, s1)" by (cases "dispatch td ev s") auto
  from dispatch_purged[OF Cons.prems, of td ev] d
  have s1: "purge_precedes_start prev (trace (client s1))" by simp
  show ?case
  proof (cases e)
    case None
    with d Cons.IH[OF s1] show ?thesis by (simp add: split_def)
  next
    case (Some x)
    with d s1 show ?thesis by simp
  qed
qed

text \<open>
  Claim C10. \<^const>\<open>start_jcarbon\<close> issues \<^verbatim>\<open>purge()\<close> and, unless that raises,
  \<^verbatim>\<open>start(pid, period_ms)\<close> right after it. The chunking callback starts sessions
  through it only, so for every sequence of events and every behaviour of the backend,
  every start call in the record of calls comes right after a purge: at the epoch begin
  and at every restart at a chunk boundary, not only before the first session.
\<close>

theorem purge_before_every_start:
  assumes "purge_precedes_start None (trace (client self))"
  shows "purge_precedes_start None (trace (client (snd (snd (run td evs self))))) \<and>
     (trace (client (snd (start_jcarbon self))) = trace (client self) @ [Purge] \<or>
      trace (client (snd (start_jcarbon self))) =
        trace (client self) @ [Purge, Start (pid self) (period_ms self)])"
  using run_purged[OF assms] start_jcarbon_trace[of self] by simp

theorem purge_before_every_start_witness:
  "purge_precedes_start None (trace (client steady_callback)) \<and>
   purge_precedes_start None
     (trace (client (snd (snd (run (returning id) (EpochBegin 0 0 None # five_batches) steady_callback))))) \<and>
   trace (client (snd (snd (run (returning id) (EpochBegin 0 0 None # five_batches) steady_callback)))) =
     [Purge, Start 7 10, Stop 7, Read 7 DEFAULT_SIGNALS, Purge, Start 7 10]"
proof -
  have h: "purge_precedes_start None (trace (client steady_callback))"
    by (simp add: scenario_defs)
  have t: "trace (client (snd (snd (run (returning id) (EpochBegin 0 0 None # five_batches) steady_callback)))) =
     [Purge, Start 7 10, Stop 7, Read 7 DEFAULT_SIGNALS, Purge, Start 7 10]"
    by (simp add: scenario_defs on_epoch_begin_def on_train_batch_end_def accumulate_def returning_def
      start_jcarbon_def stop_jcarbon_def purge_def start_def stop_def read_def Let_def
      add_jcarbon_log_def pd_concat_def)
  from purge_before_every_start[OF h, of "returning id" "EpochBegin 0 0 None # five_batches"] h t
  show ?thesis by simp
qed


lemma stop_jcarbon_cases:
  obtains (stop_raised) e where
      "stop_jcarbon s = (Inl e, s\<lparr>client := (client s)\<lparr>trace := trace (client s) @ [Stop (pid s)]\<rparr>\<rparr>)"
  | (read_raised) e where "pid s \<in> sessions (client s)"
      "stop_jcarbon s = (Inl e, s\<lparr>client := (client s)
          \<lparr>trace := trace (client s) @ [Stop (pid s), Read (pid s) (signals s)],
           sessions := sessions (client s) - {pid s}\<rparr>\<rparr>)"
  | (answered) "pid s \<in> sessions (client s)"
      "stop_jcarbon s = (Inr (readings (client s) (served (client s))), s\<lparr>client := (client s)
          \<lparr>trace := trace (client s) @ [Stop (pid s), Read (pid s) (signals s)],
           sessions := sessions (client s) - {pid s},
           served := Suc (served (client s))\<rparr>\<rparr>)"
proof -
  let ?c = "client s"
  consider (a) "length (trace ?c) \<in> outages ?c"
    | (b) "length (trace ?c) \<notin> outages ?c" "pid s \<notin> sessions ?c"
    | (c) "length (trace ?c) \<notin> outages ?c" "pid s \<in> sessions ?c"
          "Suc (length (trace ?c)) \<in> outages ?c"
    | (d) "length (trace ?c) \<notin> outages ?c" "pid s \<in> sessions ?c"
          "Suc (length (trace ?c)) \<notin> outages ?c"
    by blast
  then show ?thesis
  proof cases
    case a
    then show ?thesis
      by (intro stop_raised[of BackendUnavailableError])
         (simp add: stop_jcarbon_def stop_def Let_def)
  next
    case b
    then show ?thesis
      by (intro stop_raised[of NoOpenSessionError])
         (simp add: stop_jcarbon_def stop_def Let_def)
  next
    case c
    then show ?thesis
      by (intro read_raised[of BackendUnavailableError])
         (simp_all add: stop_jcarbon_def stop_def read_def Let_def)
  next
    case d
    then show ?thesis
      by (intro answered) (simp_all add: stop_jcarbon_def stop_def read_def Let_def)
  qed
qed

lemma start_jcarbon_cases:
  obtains (purge_raised) e where
      "start_jcarbon s = (Some e, s\<lparr>client := (client s)\<lparr>trace := trace (client s) @ [Purge]\<rparr>\<rparr>)"
  | (start_raised) e where
      "start_jcarbon s = (Some e, s\<lparr>client := (client s)
          \<lparr>trace := trace (client s) @ [Purge, Start (pid s) (period_ms s)]\<rparr>\<rparr>)"
  | (answered) "pid s \<notin> sessions (client s)"
      "start_jcarbon s = (None, s\<lparr>client := (client s)
          \<lparr>trace := trace (client s) @ [Purge, Start (pid s) (period_ms s)],
           sessions := insert (pid s) (sessions (client s))\<rparr>\<rparr>)"
proof -
  let ?c = "client s"
  consider (a) "length (trace ?c) \<in> outages ?c"
    | (b) "length (trace ?c) \<notin> outages ?c" "Suc (length (trace ?c)) \<in> outages ?c"
    | (c) "length (trace ?c) \<notin> outages ?c" "Suc (length (trace ?c)) \<notin> outages ?c"
          "pid s \<in> sessions ?c"
    | (d) "length (trace ?c) \<notin> outages ?c" "Suc (length (trace ?c)) \<notin> outages ?c"
          "pid s \<notin> sessions ?c"
    by blast
  then show ?thesis
  proof cases
    case a
    then show ?thesis
      by (intro purge_raised[of BackendUnavailableError])
         (simp add: start_jcarbon_def purge_def Let_def)
  next
    case b
    then show ?thesis
      by (intro start_raised[of BackendUnavailableError])
         (simp add: start_jcarbon_def purge_def start_def Let_def)
  next
    case c
    then show ?thesis
      by (intro start_raised[of SessionAlreadyOpenError])
         (simp add: start_jcarbon_def purge_def start_def Let_def)
  next
    case d
    then show ?thesis
      by (intro answered) (simp_all add: start_jcarbon_def purge_def start_def Let_def)
  qed
qed

text \<open>
  Claim C9, as amended. At a chunk boundary \<^verbatim>\<open>on_train_batch_end\<close> assigns
  \<^verbatim>\<open>self.time\<close> before it issues any backend call, so whenever it raises there the
  boundary clock has already advanced. If the call that raised is the stop, the
  accumulation, the metrics map and the backend session are as before the event. If it
  is the read, the accumulation is as before but the session has been stopped. If it is
  the purge or the start of the restart, the accumulation already holds the new report,
  the digest has been written, and the session has been stopped. The claim as written
  says that the accumulation and the session stay as they were whichever backend call
  raises.
\<close>

theorem boundary_failure_state:
  assumes "time self = Some t" and "cur - t > chunking_period_sec self"
    and "on_train_batch_end (returning td) b cur logs self = (Some err, logs', self')"
  shows "time self' = Some cur \<and>
     (trace (client self') = trace (client self) @ [Stop (pid self)] \<longrightarrow>
        last_report self' = last_report self \<and>
        sessions (client self') = sessions (client self) \<and> logs' = logs) \<and>
     (trace (client self') = trace (client self) @ [Stop (pid self), Read (pid self) (signals self)] \<longrightarrow>
        last_report self' = last_report self \<and> logs' = logs \<and>
        pid self \<in> sessions (client self) \<and>
        sessions (client self') = sessions (client self) - {pid self}) \<and>
     (length (trace (client self')) > length (trace (client self)) + 2 \<longrightarrow>
        last_report self' = Some (Some (absorbed td self)) \<and>
        logs' = snd (add_jcarbon_log (absorbed td self) logs) \<and>
        pid self \<in> sessions (client self) \<and>
        sessions (client self') = sessions (client self) - {pid self})"
proof -
  let ?s1 = "self\<lparr>time := Some cur\<rparr>"
  show ?thesis
  proof (cases "last_report self")
    case None
    with assms show ?thesis by (auto simp: on_train_batch_end_def accumulate_def returning_def)
  next
    case (Some lr)
    show ?thesis
    proof (cases ?s1 rule: stop_jcarbon_cases)
      case (stop_raised e)
      with assms Some show ?thesis
        by (cases lr) (auto simp: on_train_batch_end_def accumulate_def returning_def)
    next
      case (read_raised e)
      with assms Some show ?thesis
        by (cases lr) (auto simp: on_train_batch_end_def accumulate_def returning_def)
    next
      case answered
      let ?s2 = "?s1\<lparr>last_report := Some (Some (absorbed td self)),
        client := (client self)\<lparr>trace := trace (client self) @ [Stop (pid self), Read (pid self) (signals self)],
                             sessions := sessions (client self) - {pid self},
                             served := Suc (served (client self))\<rparr>\<rparr>"
      have acc: "accumulate (returning td) ?s1 = (Inr (absorbed td self), ?s2)"
        using answered Some
        by (cases lr) (simp_all add: accumulate_def returning_def pd_concat_def absorbed_def)
      obtain l1 where l1: "add_jcarbon_log (absorbed td self) logs = (None, l1)"
        by (rule add_jcarbon_log_cases)
      have r: "on_train_batch_end (returning td) b cur logs self =
          (case start_jcarbon ?s2 of (e, s3) \<Rightarrow> (e, l1, s3))"
        using assms(1,2) acc l1 by (simp add: on_train_batch_end_def)
      show ?thesis
      proof (cases ?s2 rule: start_jcarbon_cases)
        case (purge_raised e)
        with r assms(3) answered(1) l1 show ?thesis by auto
      next
        case (start_raised e)
        with r assms(3) answered(1) l1 show ?thesis by auto
      next
        case answered
        with r assms(3) show ?thesis by simp
      qed
    qed
  qed
qed


lemmas handler_defs =
  returning_def on_epoch_begin_def on_train_batch_end_def on_epoch_end_def accumulate_def
  start_jcarbon_def stop_jcarbon_def purge_def start_def stop_def read_def Let_def
  pd_concat_def

lemma unanswered_stop_callback_eq:
  "unanswered_stop_callback =
     \<lparr>pid = 7,
      client = \<lparr>sessions = {7}, trace = [Purge, Start 7 10], served = 0,
                readings = cpu_readings, outages = {2}\<rparr>,
      period_ms = 10, signals = DEFAULT_SIGNALS, reports = Map.empty,
      chunking_period_sec = 2, time = Some 0, last_report = Some None\<rparr>"
  by (simp add: unanswered_stop_callback_def JCarbonChunkingCallback_init_def
      JCarbonClient_def DEFAULT_PERIOD_MS_def DEFAULT_PERIOD_SECS_def handler_defs)

lemma failing_callback_eq:
  "failing_callback =
     \<lparr>pid = 7,
      client = \<lparr>sessions = {7}, trace = [Purge, Start 7 10], served = 0,
                readings = cpu_readings, outages = {4}\<rparr>,
      period_ms = 10, signals = DEFAULT_SIGNALS, reports = Map.empty,
      chunking_period_sec = 2, time = Some 0, last_report = Some None\<rparr>"
  by (simp add: failing_callback_def JCarbonChunkingCallback_init_def
      JCarbonClient_def DEFAULT_PERIOD_MS_def DEFAULT_PERIOD_SECS_def handler_defs)

theorem boundary_failure_state_witness:
  "time unanswered_stop_callback = Some 0 \<and>
   3 - 0 > chunking_period_sec unanswered_stop_callback \<and>
   fst (on_train_batch_end (returning id) 0 3 None unanswered_stop_callback) =
     Some BackendUnavailableError \<and>
   time (snd (snd (on_train_batch_end (returning id) 0 3 None unanswered_stop_callback))) = Some 3 \<and>
   trace (client (snd (snd (on_train_batch_end (returning id) 0 3 None unanswered_stop_callback)))) =
     trace (client unanswered_stop_callback) @ [Stop 7] \<and>
   last_report (snd (snd (on_train_batch_end (returning id) 0 3 None unanswered_stop_callback))) =
     last_report unanswered_stop_callback \<and>
   sessions (client (snd (snd (on_train_batch_end (returning id) 0 3 None unanswered_stop_callback)))) =
     sessions (client unanswered_stop_callback)"
proof -
  let ?r = "on_train_batch_end (returning id) 0 3 None unanswered_stop_callback"
  have h1: "time unanswered_stop_callback = Some 0"
    and h2: "3 - 0 > chunking_period_sec unanswered_stop_callback"
    by (simp_all add: unanswered_stop_callback_eq)
  have e: "fst ?r = Some BackendUnavailableError"
    and t: "trace (client (snd (snd ?r))) = trace (client unanswered_stop_callback) @ [Stop 7]"
    by (simp_all add: unanswered_stop_callback_eq handler_defs)
  have h3: "?r = (Some BackendUnavailableError, fst (snd ?r), snd (snd ?r))"
    using e by (metis prod.collapse)
  from boundary_failure_state[OF h1 h2 h3] h1 h2 e t
  show ?thesis by (simp add: unanswered_stop_callback_eq)
qed

theorem boundary_failure_counterexample:
  "fst (on_train_batch_end (returning id) 0 3 None failing_callback) = Some BackendUnavailableError \<and>
   last_report failing_callback = Some None \<and>
   last_report (snd (snd (on_train_batch_end (returning id) 0 3 None failing_callback))) =
     Some (Some cpu_samples) \<and>
   sessions (client failing_callback) = {7} \<and>
   sessions (client (snd (snd (on_train_batch_end (returning id) 0 3 None failing_callback)))) = {}"
  by (simp add: failing_callback_eq handler_defs add_jcarbon_log_def cpu_readings_def)


section \<open>The two chunking modes\<close>

lemma start_jcarbon_calls:
  "start_jcarbon s =
     (fst (start_calls (pid s) (period_ms s) (client s)),
      s\<lparr>client := snd (start_calls (pid s) (period_ms s) (client s))\<rparr>)"
  by (simp add: start_jcarbon_def start_calls_def split: prod.splits option.splits)

lemma stop_jcarbon_calls:
  "stop_jcarbon s =
     (fst (stop_calls (pid s) (signals s) (client s)),
      s\<lparr>client := snd (stop_calls (pid s) (signals s) (client s))\<rparr>)"
  by (simp add: stop_jcarbon_def stop_calls_def split: prod.splits option.splits)

lemma start_calls_served: "served (snd (start_calls p period c)) = served c"
  by (simp add: start_calls_def purge_def start_def Let_def)

lemma stop_calls_served:
  "served (snd (stop_calls p sg c)) =
     (case fst (stop_calls p sg c) of Inl e \<Rightarrow> served c | Inr r \<Rightarrow> Suc (served c))"
  by (simp add: stop_calls_def stop_def read_def Let_def)

lemma corresponds_epoch_begin:
  assumes "corresponds td s1 s2"
  shows "\<exists>e s1' s2'. on_epoch_begin ep now l s1 = (e, l, s1') \<and>
           on_epoch_begin2 ep now l s2 = (e, l, s2') \<and> corresponds td s1' s2' \<and>
           served (client s2') = served (client s2)"
  using assms
  by (simp add: on_epoch_begin_def on_epoch_begin2_def start_jcarbon_calls corresponds_def
      start_calls_served)

lemma corresponds_accumulate:
  assumes "corresponds td s1 s2"
  shows "(\<exists>e s1' s2'. accumulate (returning td) s1 = (Inl e, s1') \<and>
            accumulate2 s2 = (Inl e, s2') \<and> corresponds td s1' s2' \<and>
            served (client s2') = served (client s2)) \<or>
         (\<exists>rs s1' s2'. accumulate (returning td) s1 = (Inr (concat (map td rs)), s1') \<and>
            accumulate2 s2 = (Inr rs, s2') \<and> rs \<noteq> [] \<and> corresponds td s1' s2' \<and>
            served (client s2') = Suc (served (client s2)) \<and>
            last_report2 s2' = Some (Some rs))"
proof (cases "last_report2 s2")
  case None
  with assms show ?thesis
    by (simp add: accumulate_def returning_def accumulate2_def corresponds_def)
next
  case (Some lr)
  obtain r c where sc: "stop_calls (pid s2) (signals s2) (client s2) = (r, c)"
    by (cases "stop_calls (pid s2) (signals s2) (client s2)")
  have sv: "served c = (case r of Inl e \<Rightarrow> served (client s2) | Inr x \<Rightarrow> Suc (served (client s2)))"
    using stop_calls_served[of "pid s2" "signals s2" "client s2"] sc by simp
  show ?thesis
  proof (cases lr)
    case None
    with Some assms sc sv show ?thesis
      by (cases r)
         (simp_all add: accumulate_def returning_def accumulate2_def corresponds_def
            stop_jcarbon_calls)
  next
    case (Some rs)
    with \<open>last_report2 s2 = Some lr\<close> assms sc sv show ?thesis
      by (cases r)
         (simp_all add: accumulate_def returning_def accumulate2_def corresponds_def
            stop_jcarbon_calls pd_concat_def)
  qed
qed

lemma corresponds_time:
  "corresponds td s1 s2 \<Longrightarrow> corresponds td (s1\<lparr>time := Some t\<rparr>) (s2\<lparr>time2 := Some t\<rparr>)"
  by (simp add: corresponds_def split: option.splits)

lemma corresponds_start:
  assumes "corresponds td s1 s2"
  shows "\<exists>e s1' s2'. start_jcarbon s1 = (e, s1') \<and> start_jcarbon s2 = (e, s2') \<and>
           corresponds td s1' s2' \<and> served (client s2') = served (client s2) \<and>
           last_report2 s2' = last_report2 s2"
  using assms
  by (simp add: start_jcarbon_calls corresponds_def start_calls_served split: option.splits)

text \<open>The metrics map the eager handler hands back at one event, told from the states of
  the list-accumulating callback before and after the event.\<close>

lemma corresponds_batch_end:
  assumes "corresponds td s1 s2"
  shows "\<exists>e l1 s1' s2'. on_train_batch_end (returning td) b cur l s1 = (e, l1, s1') \<and>
           on_train_batch_end2 b cur l s2 = (e, l, s2') \<and> corresponds td s1' s2' \<and>
           l1 = (if served (client s2') = served (client s2) then l
                 else (case last_report2 s2' of
                         Some (Some rs) \<Rightarrow> snd (add_jcarbon_log (concat (map td rs)) l)
                       | _ \<Rightarrow> l))"
proof (cases "time2 s2")
  case None
  with assms show ?thesis
    by (simp add: on_train_batch_end_def on_train_batch_end2_def corresponds_def)
next
  case (Some t)
  with assms have t1: "time s1 = Some t" and c: "chunking_period_sec s1 = chunking_period_sec2 s2"
    by (simp_all add: corresponds_def)
  show ?thesis
  proof (cases "cur - t > chunking_period_sec2 s2")
    case False
    with Some t1 c assms show ?thesis
      by (simp add: on_train_batch_end_def on_train_batch_end2_def)
  next
    case True
    from corresponds_accumulate[OF corresponds_time[OF assms, of cur]]
    show ?thesis
    proof (elim disjE exE conjE)
      fix e s1' s2'
      assume "accumulate (returning td) (s1\<lparr>time := Some cur\<rparr>) = (Inl e, s1')"
        "accumulate2 (s2\<lparr>time2 := Some cur\<rparr>) = (Inl e, s2')" "corresponds td s1' s2'"
        "served (client s2') = served (client (s2\<lparr>time2 := Some cur\<rparr>))"
      with Some t1 c True show ?thesis
        by (simp add: on_train_batch_end_def on_train_batch_end2_def)
    next
      fix rs s1' s2'
      assume a: "accumulate (returning td) (s1\<lparr>time := Some cur\<rparr>) = (Inr (concat (map td rs)), s1')"
        "accumulate2 (s2\<lparr>time2 := Some cur\<rparr>) = (Inr rs, s2')" "corresponds td s1' s2'"
        "served (client s2') = Suc (served (client (s2\<lparr>time2 := Some cur\<rparr>)))"
        "last_report2 s2' = Some (Some rs)"
      obtain l1 where l1: "add_jcarbon_log (concat (map td rs)) l = (None, l1)"
        by (rule add_jcarbon_log_cases)
      from corresponds_start[OF a(3)] obtain e t1' t2' where
        st: "start_jcarbon s1' = (e, t1')" "start_jcarbon s2' = (e, t2')" "corresponds td t1' t2'"
          "served (client t2') = served (client s2')" "last_report2 t2' = last_report2 s2'"
        by blast
      with a l1 Some t1 c True show ?thesis
        by (simp add: on_train_batch_end_def on_train_batch_end2_def)
    qed
  qed
qed

lemma convert_all_returning: "convert_all (returning td) rs = Inr (map td rs)"
  by (induction rs) (simp_all add: returning_def)

lemma corresponds_epoch_end:
  assumes "corresponds td s1 s2"
  shows "\<exists>e l1 s1' s2'. on_epoch_end (returning td) ep l s1 = (e, l1, s1') \<and>
           on_epoch_end2 (returning td) ep l s2 = (e, l, s2') \<and> corresponds td s1' s2' \<and>
           l1 = (if served (client s2') = served (client s2) then l
                 else (case last_report2 s2' of
                         Some (Some rs) \<Rightarrow> snd (add_jcarbon_log (concat (map td rs)) l)
                       | _ \<Rightarrow> l))"
  using corresponds_accumulate[OF assms]
proof (elim disjE exE conjE)
  fix e s1' s2'
  assume "accumulate (returning td) s1 = (Inl e, s1')" "accumulate2 s2 = (Inl e, s2')"
    "corresponds td s1' s2'" "served (client s2') = served (client s2)"
  then show ?thesis by (simp add: on_epoch_end_def on_epoch_end2_def)
next
  fix rs s1' s2'
  assume a: "accumulate (returning td) s1 = (Inr (concat (map td rs)), s1')"
    "accumulate2 s2 = (Inr rs, s2')" "rs \<noteq> []" "corresponds td s1' s2'"
    "served (client s2') = Suc (served (client s2))" "last_report2 s2' = Some (Some rs)"
  obtain l1 where l1: "add_jcarbon_log (concat (map td rs)) l = (None, l1)"
    by (rule add_jcarbon_log_cases)
  from a l1 show ?thesis
    by (simp add: on_epoch_end_def on_epoch_end2_def pd_concat_def corresponds_def
        convert_all_returning split: option.splits)
qed

lemma corresponds_dispatch:
  assumes "corresponds td s1 s2"
  shows "\<exists>e l1 s1' s2'. dispatch (returning td) ev s1 = (e, l1, s1') \<and>
           dispatch2 (returning td) ev s2 = (e, event_logs ev, s2') \<and>
           corresponds td s1' s2' \<and>
           l1 = (if served (client s2') = served (client s2) then event_logs ev
                 else (case last_report2 s2' of
                         Some (Some rs) \<Rightarrow>
                           snd (add_jcarbon_log (concat (map td rs)) (event_logs ev))
                       | _ \<Rightarrow> event_logs ev))"
proof (cases ev)
  case (EpochBegin ep now l)
  from corresponds_epoch_begin[OF assms, of ep now l] show ?thesis
    unfolding EpochBegin by auto
next
  case (TrainBatchBegin b l)
  with assms show ?thesis by simp
next
  case (TrainBatchEnd b cur l)
  from corresponds_batch_end[OF assms, of b cur l] show ?thesis
    unfolding TrainBatchEnd dispatch.simps dispatch2.simps event_logs.simps .
next
  case (EpochEnd ep l)
  from corresponds_epoch_end[OF assms, of ep l] show ?thesis
    unfolding EpochEnd dispatch.simps dispatch2.simps event_logs.simps .
qed

lemma corresponds_run:
  assumes "corresponds td s1 s2"
  shows "\<exists>e ls1 ls2 s1' s2'. run (returning td) evs s1 = (e, ls1, s1') \<and>
           run2 (returning td) evs s2 = (e, ls2, s2') \<and> corresponds td s1' s2' \<and>
           ls2 = map event_logs (take (length ls2) evs) \<and>
           ls1 = eager_logs td evs s2"
  using assms
proof (induction evs arbitrary: s1 s2)
  case Nil
  then show ?case by simp
next
  case (Cons ev evs)
  from corresponds_dispatch[OF Cons.prems, of ev] obtain e l1 t1 t2 where
    d: "dispatch (returning td) ev s1 = (e, l1, t1)"
       "dispatch2 (returning td) ev s2 = (e, event_logs ev, t2)"
       "corresponds td t1 t2"
       "l1 = (if served (client t2) = served (client s2) then event_logs ev
              else (case last_report2 t2 of
                      Some (Some rs) \<Rightarrow>
                        snd (add_jcarbon_log (concat (map td rs)) (event_logs ev))
                    | _ \<Rightarrow> event_logs ev))" by blast
  show ?case
  proof (cases e)
    case (Some x)
    with d show ?thesis by simp
  next
    case None
    from Cons.IH[OF d(3)] obtain e' ls1 ls2 u1 u2 where
      r: "run (returning td) evs t1 = (e', ls1, u1)" "run2 (returning td) evs t2 = (e', ls2, u2)"
         "corresponds td u1 u2"
         "ls2 = map event_logs (take (length ls2) evs)"
         "ls1 = eager_logs td evs t2" by blast
    have "run (returning td) (ev # evs) s1 = (e', l1 # ls1, u1)"
      "run2 (returning td) (ev # evs) s2 = (e', event_logs ev # ls2, u2)"
      using d None r by simp_all
    moreover have "event_logs ev # ls2 =
        map event_logs (take (length (event_logs ev # ls2)) (ev # evs))"
      using r(4) by simp
    moreover have "l1 # ls1 = eager_logs td (ev # evs) s2"
      using d(2,4) None r(5) by simp
    ultimately show ?thesis using r(3) by auto
  qed
qed

text \<open>
  Claim C3, as amended. Let the eager-concatenation callback and the list-accumulation
  callback be created with the same arguments and driven through the same events, for
  any behaviour of the backend and a conversion \<^verbatim>\<open>to_dataframe\<close> that does not raise.
  Then they raise the same exception or none, issue the same backend calls, and store
  the same per-epoch report in \<^verbatim>\<open>reports[epoch]\<close>. The metrics map is where they
  differ: \<^verbatim>\<open>JCarbonChunkingCallback2\<close> never calls \<^const>\<open>add_jcarbon_log\<close> and hands
  every \<^verbatim>\<open>logs\<close> back as it was passed; the eager callback hands back the maps of
  \<^const>\<open>eager_logs\<close>: at each event at which a report was read the map has gone
  through \<^const>\<open>add_jcarbon_log\<close> with the accumulation so far, at every other event
  it is as passed. When the conversion can raise, the modes differ in the exception
  and the calls as well, since the eager one converts at each boundary and the other
  at the epoch end only.
\<close>

theorem chunking_modes_agree:
  "\<exists>e ls1 ls2 s1 s2.
     run (returning td) evs (JCarbonChunkingCallback_init p cl period sg c) = (e, ls1, s1) \<and>
     run2 (returning td) evs (JCarbonChunkingCallback2_init p cl period sg c) = (e, ls2, s2) \<and>
     reports s1 = reports2 s2 \<and> client s1 = client s2 \<and>
     ls2 = map event_logs (take (length ls2) evs) \<and>
     ls1 = eager_logs td evs (JCarbonChunkingCallback2_init p cl period sg c)"
proof -
  have "corresponds td (JCarbonChunkingCallback_init p cl period sg c)
          (JCarbonChunkingCallback2_init p cl period sg c)"
    by (simp add: corresponds_def JCarbonChunkingCallback_init_def
        JCarbonChunkingCallback2_init_def)
  from corresponds_run[OF this, of evs] show ?thesis
    by (auto simp: corresponds_def)
qed

lemmas handler2_defs =
  steady_callback2_def JCarbonChunkingCallback2_init_def on_epoch_begin2_def
  on_train_batch_end2_def on_epoch_end2_def accumulate2_def

theorem chunking_modes_logs_counterexample:
  "fst (snd (run (returning id) [EpochBegin 0 0 None, EpochEnd 0 (Some loss_logs)]
       steady_callback)) =
     [None, Some [(''loss'', 1 / 4), (''CPU-J'', 5)]] \<and>
   fst (snd (run2 (returning id) [EpochBegin 0 0 None, EpochEnd 0 (Some loss_logs)]
       steady_callback2)) =
     [None, Some [(''loss'', 1 / 4)]] \<and>
   fst (run malformed [EpochBegin 0 0 None, TrainBatchEnd 0 3 None] steady_callback) =
     Some MalformedReportError \<and>
   fst (run2 malformed [EpochBegin 0 0 None, TrainBatchEnd 0 3 None] steady_callback2) =
     None \<and>
   trace (client (snd (snd
       (run malformed [EpochBegin 0 0 None, TrainBatchEnd 0 3 None] steady_callback)))) =
     [Purge, Start 7 10, Stop 7, Read 7 DEFAULT_SIGNALS] \<and>
   trace (client (snd (snd
       (run2 malformed [EpochBegin 0 0 None, TrainBatchEnd 0 3 None] steady_callback2)))) =
     [Purge, Start 7 10, Stop 7, Read 7 DEFAULT_SIGNALS, Purge, Start 7 10]"
proof -
  have d: "add_jcarbon_log cpu_samples (Some loss_logs) =
      (None, Some [(''loss'', 1 / 4), (''CPU-J'', 5)])"
    by (simp add: add_jcarbon_log_def groupby_def cpu_samples_def joules_def key_of_def
        positive_sum_def UNITS_def loss_logs_def)
  have 1: "fst (snd (run (returning id) [EpochBegin 0 0 None, EpochEnd 0 (Some loss_logs)]
       steady_callback)) = [None, Some [(''loss'', 1 / 4), (''CPU-J'', 5)]]"
    by (simp add: scenario_defs handler_defs cpu_readings_def d)
  have 2: "fst (snd (run2 (returning id) [EpochBegin 0 0 None, EpochEnd 0 (Some loss_logs)]
       steady_callback2)) = [None, Some [(''loss'', 1 / 4)]]"
    by (simp add: scenario_defs handler_defs handler2_defs cpu_readings_def loss_logs_def)
  have 3: "run malformed [EpochBegin 0 0 None, TrainBatchEnd 0 3 None] steady_callback =
     (Some MalformedReportError, [None, None],
      steady_callback\<lparr>time := Some 3, last_report := Some None,
        client := (client steady_callback)
          \<lparr>trace := [Purge, Start 7 10, Stop 7, Read 7 DEFAULT_SIGNALS], served := 1\<rparr>\<rparr>)"
    by (simp add: scenario_defs handler_defs malformed_def)
  have 4: "run2 malformed [EpochBegin 0 0 None, TrainBatchEnd 0 3 None] steady_callback2 =
     (None, [None, None],
      steady_callback2\<lparr>time2 := Some 3, last_report2 := Some (Some [cpu_samples]),
        client := (client steady_callback2)
          \<lparr>sessions := {7},
           trace := [Purge, Start 7 10, Stop 7, Read 7 DEFAULT_SIGNALS, Purge, Start 7 10],
           served := 1\<rparr>\<rparr>)"
    by (simp add: scenario_defs handler_defs handler2_defs cpu_readings_def)
  from 1 2 3 4 show ?thesis by (simp add: scenario_defs handler2_defs)
qed


section \<open>Report merge over an epoch\<close>

lemma windows_snoc:
  "windows td c (Suc n) = windows td c n @ [td (readings c (served c + n))]"
  by (simp add: windows_def)

lemma windows_shift:
  assumes "readings c' = readings c" and "served c' = Suc (served c)"
  shows "td (readings c (served c)) # windows td c' n = windows td c (Suc n)"
proof -
  have "map (\<lambda>i. td (readings c (served c + i))) [0..<Suc n] =
        td (readings c (served c)) # map (\<lambda>i. td (readings c (served c + Suc i))) [0..<n]"
    by (simp add: upt_conv_Cons map_Suc_upt[symmetric] del: upt_Suc)
  with assms show ?thesis by (simp add: windows_def)
qed

lemma absorbed_accumulated:
  "absorbed td s = accumulated s @ td (readings (client s) (served (client s)))"
  by (simp add: absorbed_def accumulated_def)

text \<open>The batch events of an epoch on a backend that answers: what is accumulated.\<close>

lemma batches_windows:
  assumes "list_all is_batch_event bs"
    and "outages (client s) = {}" and "pid s \<in> sessions (client s)"
    and "last_report s \<noteq> None" and "time s = Some t"
  shows "\<exists>ls s'. run (returning td) bs s = (None, ls, s') \<and>
     outages (client s') = {} \<and> pid s' \<in> sessions (client s') \<and>
     last_report s' \<noteq> None \<and> reports s' = reports s \<and>
     readings (client s') = readings (client s) \<and>
     served (client s') = served (client s) + crossings (chunking_period_sec s) t bs \<and>
     accumulated s' =
       accumulated s @ concat (windows td (client s) (crossings (chunking_period_sec s) t bs))"
  using assms
proof (induction bs arbitrary: s t)
  case Nil
  then show ?case by (simp add: windows_def)
next
  case (Cons ev bs)
  from Cons.prems(4) obtain lr where lr: "last_report s = Some lr" by auto
  from Cons.prems(1) have bs: "list_all is_batch_event bs" by simp
  show ?case
  proof (cases ev)
    case (EpochBegin e now l)
    with Cons.prems(1) show ?thesis by simp
  next
    case (EpochEnd e l)
    with Cons.prems(1) show ?thesis by simp
  next
    case (TrainBatchBegin b l)
    from Cons.IH[OF bs Cons.prems(2,3,4,5)] TrainBatchBegin
    show ?thesis by (auto simp: split_def)
  next
    case (TrainBatchEnd b cur l)
    show ?thesis
    proof (cases "cur - t > chunking_period_sec s")
      case False
      have step: "dispatch (returning td) ev s = (None, l, s)"
        using TrainBatchEnd False Cons.prems(5) by (simp add: batch_end_idle)
      from Cons.IH[OF bs Cons.prems(2,3,4,5)] step TrainBatchEnd False
      show ?thesis by (auto simp: split_def)
    next
      case True
      let ?c1 = "(client s)\<lparr>trace := trace (client s) @
              [Stop (pid s), Read (pid s) (signals s), Purge, Start (pid s) (period_ms s)],
                             served := Suc (served (client s))\<rparr>"
      let ?s1 = "s\<lparr>time := Some cur, last_report := Some (Some (absorbed td s)),
        client := ?c1\<rparr>"
      let ?n = "crossings (chunking_period_sec s) cur bs"
      have step: "dispatch (returning td) ev s =
          (None, snd (add_jcarbon_log (absorbed td s) l), ?s1)"
        using TrainBatchEnd True Cons.prems(2,3,5) lr by (simp add: batch_end_fires)
      have "\<exists>ls s'. run (returning td) bs ?s1 = (None, ls, s') \<and>
         outages (client s') = {} \<and> pid s' \<in> sessions (client s') \<and>
         last_report s' \<noteq> None \<and> reports s' = reports ?s1 \<and>
         readings (client s') = readings (client ?s1) \<and>
         served (client s') =
           served (client ?s1) + crossings (chunking_period_sec ?s1) cur bs \<and>
         accumulated s' =
           accumulated ?s1 @
           concat (windows td (client ?s1) (crossings (chunking_period_sec ?s1) cur bs))"
        using Cons.prems(2,3) by (intro Cons.IH[OF bs]) simp_all
      then obtain ls s' where r: "run (returning td) bs ?s1 = (None, ls, s')"
         "outages (client s') = {}" "pid s' \<in> sessions (client s')"
         "last_report s' \<noteq> None" "reports s' = reports s"
         "readings (client s') = readings (client s)"
         "served (client s') = Suc (served (client s)) + ?n"
         "accumulated s' = accumulated ?s1 @ concat (windows td ?c1 ?n)"
        by auto
      have a1: "accumulated ?s1 = accumulated s @ td (readings (client s) (served (client s)))"
        using absorbed_accumulated[of td s] by (simp add: accumulated_def)
      have w: "td (readings (client s) (served (client s))) # windows td ?c1 ?n =
            windows td (client s) (Suc ?n)"
        by (rule windows_shift) simp_all
      have acc: "accumulated s' = accumulated s @ concat (windows td (client s) (Suc ?n))"
        unfolding r(8) a1 w[symmetric] by simp
      have "run (returning td) (ev # bs) s =
          (None, snd (add_jcarbon_log (absorbed td s) l) # ls, s')"
        using step r(1) by simp
      with r(2-7) acc TrainBatchEnd True show ?thesis by simp
    qed
  qed
qed

text \<open>A whole epoch of the eager callback on a backend that answers: the accumulation
  built one window at a time is the concatenation of all the windows of the epoch.\<close>

lemma epoch_windows:
  assumes "outages (client s) = {}" and "pid s \<notin> sessions (client s)"
    and "list_all is_batch_event bs"
  shows "\<exists>ls s'. run (returning td) (EpochBegin e t0 l0 # bs @ [EpochEnd e l1]) s = (None, ls, s') \<and>
     last_report s' =
       Some (Some (concat (windows td (client s)
          (Suc (crossings (chunking_period_sec s) t0 bs))))) \<and>
     reports s' e =
       Some (tag_epoch e (concat (windows td (client s)
          (Suc (crossings (chunking_period_sec s) t0 bs)))))"
proof -
  let ?c0 = "(client s)\<lparr>trace := trace (client s) @ [Purge, Start (pid s) (period_ms s)],
                                   sessions := insert (pid s) (sessions (client s))\<rparr>"
  let ?s0 = "s\<lparr>time := Some t0, last_report := Some None, client := ?c0\<rparr>"
  let ?n = "crossings (chunking_period_sec s) t0 bs"
  have b: "dispatch (returning td) (EpochBegin e t0 l0) s = (None, l0, ?s0)"
    using assms(1,2) by (simp add: on_epoch_begin_ok)
  have "\<exists>ls s'. run (returning td) bs ?s0 = (None, ls, s') \<and>
     outages (client s') = {} \<and> pid s' \<in> sessions (client s') \<and>
     last_report s' \<noteq> None \<and> reports s' = reports ?s0 \<and>
     readings (client s') = readings (client ?s0) \<and>
     served (client s') = served (client ?s0) + crossings (chunking_period_sec ?s0) t0 bs \<and>
     accumulated s' =
       accumulated ?s0 @ concat (windows td (client ?s0) (crossings (chunking_period_sec ?s0) t0 bs))"
    using assms by (intro batches_windows) simp_all
  then obtain ls s1 where m: "run (returning td) bs ?s0 = (None, ls, s1)"
     "outages (client s1) = {}" "pid s1 \<in> sessions (client s1)" "last_report s1 \<noteq> None"
     "readings (client s1) = readings (client s)"
     "served (client s1) = served (client s) + ?n"
     "accumulated s1 = accumulated ?s0 @ concat (windows td ?c0 ?n)"
    by auto
  from m(4) obtain lr where lr: "last_report s1 = Some lr" by auto
  have w0: "windows td ?c0 ?n = windows td (client s) ?n"
    by (simp add: windows_def)
  have a: "absorbed td s1 = concat (windows td (client s) (Suc ?n))"
    unfolding absorbed_accumulated m(7) w0 windows_snoc m(5,6)
    by (simp add: accumulated_def)
  let ?s2 = "s1\<lparr>last_report := Some (Some (absorbed td s1)),
        client := (client s1)\<lparr>trace := trace (client s1) @ [Stop (pid s1), Read (pid s1) (signals s1)],
                             sessions := sessions (client s1) - {pid s1},
                             served := Suc (served (client s1))\<rparr>,
        reports := (reports s1)(e \<mapsto> tag_epoch e (absorbed td s1))\<rparr>"
  have en: "run (returning td) [EpochEnd e l1] s1 =
      (None, [snd (add_jcarbon_log (absorbed td s1) l1)], ?s2)"
    using epoch_end_ok[OF m(2,3) lr, of td e l1] by simp
  have "run (returning td) (bs @ [EpochEnd e l1]) ?s0 =
        (None, ls @ [snd (add_jcarbon_log (absorbed td s1) l1)], ?s2)"
    using m(1) en by (simp add: run_append del: run.simps)
  with b have "run (returning td) (EpochBegin e t0 l0 # bs @ [EpochEnd e l1]) s =
      (None, l0 # ls @ [snd (add_jcarbon_log (absorbed td s1) l1)], ?s2)"
    by simp
  moreover have "last_report ?s2 = Some (Some (concat (windows td (client s) (Suc ?n))))"
    "reports ?s2 e = Some (tag_epoch e (concat (windows td (client s) (Suc ?n))))"
    using a by simp_all
  ultimately show ?thesis by blast
qed

text \<open>
  Claim C7. Report merge is associative, in pandas and in the program. In pandas,
  concatenating \<open>r1\<close> and \<open>r2\<close> and then appending \<open>r3\<close> gives the concatenation of the
  three in one step. In the program, over an epoch on a backend that answers with a
  conversion that does not raise: the eager callback merges window by window
  (\<^const>\<open>accumulate\<close>: the accumulation so far, then the window just read), the
  list-accumulating callback merges all windows in one step at the epoch end, and both
  end with the one-step concatenation of all windows of the epoch in backend order. No
  window is dropped (the lengths add up) and within every (component type, component
  id, unit, source) group the samples keep the order of the windows and their order
  inside each window.
\<close>

theorem report_merge_associative:
  assumes "outages cl = {}" and "p \<notin> sessions cl" and "list_all is_batch_event bs"
  shows "\<exists>ls1 s1 ls2 s2 acc.
     run (returning td) (EpochBegin e t0 l0 # bs @ [EpochEnd e l1])
       (JCarbonChunkingCallback_init p cl period sg c) = (None, ls1, s1) \<and>
     run2 (returning td) (EpochBegin e t0 l0 # bs @ [EpochEnd e l1])
       (JCarbonChunkingCallback2_init p cl period sg c) = (None, ls2, s2) \<and>
     pd_concat (windows td cl (Suc (crossings c t0 bs))) = Inr acc \<and>
     last_report s1 = Some (Some acc) \<and>
     reports s1 e = Some (tag_epoch e acc) \<and>
     reports2 s2 e = Some (tag_epoch e acc) \<and>
     filter (\<lambda>r. key_of r = k) acc =
       concat (map (filter (\<lambda>r. key_of r = k)) (windows td cl (Suc (crossings c t0 bs)))) \<and>
     length acc = sum_list (map length (windows td cl (Suc (crossings c t0 bs)))) \<and>
     (case pd_concat [r1, r2] of Inl err \<Rightarrow> Inl err | Inr a \<Rightarrow> pd_concat [a, r3]) =
       pd_concat [r1, r2, r3]"
proof -
  let ?i1 = "JCarbonChunkingCallback_init p cl period sg c"
  let ?i2 = "JCarbonChunkingCallback2_init p cl period sg c"
  let ?evs = "EpochBegin e t0 l0 # bs @ [EpochEnd e l1]"
  let ?ws = "windows td cl (Suc (crossings c t0 bs))"
  have h: "outages (client ?i1) = {}" "pid ?i1 \<notin> sessions (client ?i1)"
    using assms(1,2) by (simp_all add: JCarbonChunkingCallback_init_def)
  from epoch_windows[OF h assms(3), of td e t0 l0 l1] obtain ls1 s1 where
    r1: "run (returning td) ?evs ?i1 = (None, ls1, s1)"
        "last_report s1 = Some (Some (concat ?ws))"
        "reports s1 e = Some (tag_epoch e (concat ?ws))"
    by (auto simp: JCarbonChunkingCallback_init_def)
  have "corresponds td ?i1 ?i2"
    by (simp add: corresponds_def JCarbonChunkingCallback_init_def
        JCarbonChunkingCallback2_init_def)
  from corresponds_run[OF this, of ?evs] r1(1) obtain ls2 s2 where
    r2: "run2 (returning td) ?evs ?i2 = (None, ls2, s2)" "corresponds td s1 s2"
    by auto
  from r2(2) r1(3) have rep2: "reports2 s2 e = Some (tag_epoch e (concat ?ws))"
    by (simp add: corresponds_def)
  have ne: "?ws \<noteq> []" by (simp add: windows_def)
  then have one: "pd_concat ?ws = Inr (concat ?ws)" by (simp add: pd_concat_def)
  have grp: "filter (\<lambda>r. key_of r = k) (concat ?ws) =
       concat (map (filter (\<lambda>r. key_of r = k)) ?ws)"
    by (rule filter_concat)
  have len: "length (concat ?ws) = sum_list (map length ?ws)"
    by (rule length_concat)
  have assoc: "(case pd_concat [r1, r2] of Inl err \<Rightarrow> Inl err | Inr a \<Rightarrow> pd_concat [a, r3]) =
       pd_concat [r1, r2, r3]"
    by (simp add: pd_concat_def)
  from r1 r2(1) rep2 one grp len assoc show ?thesis by blast
qed

theorem report_merge_associative_witness:
  "outages (JCarbonClient numbered_readings {}) = {} \<and>
   7 \<notin> sessions (JCarbonClient numbered_readings {}) \<and>
   list_all is_batch_event two_crossings \<and>
   (\<exists>ls1 s1 ls2 s2.
     run (returning id) (EpochBegin 0 0 None # two_crossings @ [EpochEnd 0 None])
       (JCarbonChunkingCallback_init 7 (JCarbonClient numbered_readings {}) 10 [] 2) =
       (None, ls1, s1) \<and>
     run2 (returning id) (EpochBegin 0 0 None # two_crossings @ [EpochEnd 0 None])
       (JCarbonChunkingCallback2_init 7 (JCarbonClient numbered_readings {}) 10 [] 2) =
       (None, ls2, s2) \<and>
     last_report s1 =
       Some (Some [joules ''CPU'' ''0'' 1, joules ''CPU'' ''0'' 2, joules ''CPU'' ''0'' 3]) \<and>
     reports2 s2 0 =
       Some (tag_epoch 0
         [joules ''CPU'' ''0'' 1, joules ''CPU'' ''0'' 2, joules ''CPU'' ''0'' 3]))"
proof -
  have h: "outages (JCarbonClient numbered_readings {}) = {}"
    "7 \<notin> sessions (JCarbonClient numbered_readings {})"
    "list_all is_batch_event two_crossings"
    by (simp_all add: JCarbonClient_def two_crossings_def)
  have n: "crossings 2 0 two_crossings = Suc (Suc 0)"
    by (simp add: two_crossings_def)
  have w: "windows id (JCarbonClient numbered_readings {}) (Suc (Suc (Suc 0))) =
      [[joules ''CPU'' ''0'' 1], [joules ''CPU'' ''0'' 2], [joules ''CPU'' ''0'' 3]]"
    by (simp add: windows_def JCarbonClient_def numbered_readings_def)
  from report_merge_associative[OF h, where td = id and e = 0 and ?t0.0 = 0 and ?l0.0 = None
      and ?l1.0 = None and period = 10 and sg = "[]" and c = 2
      and k = "(''CPU'', ''0'', ''JOULES'', ''rapl'')"
      and ?r1.0 = "[]" and ?r2.0 = "[]" and ?r3.0 = "[]"]
  obtain ls1 s1 ls2 s2 acc where
    r: "run (returning id) (EpochBegin 0 0 None # two_crossings @ [EpochEnd 0 None])
          (JCarbonChunkingCallback_init 7 (JCarbonClient numbered_readings {}) 10 [] 2) =
          (None, ls1, s1)"
       "run2 (returning id) (EpochBegin 0 0 None # two_crossings @ [EpochEnd 0 None])
          (JCarbonChunkingCallback2_init 7 (JCarbonClient numbered_readings {}) 10 [] 2) =
          (None, ls2, s2)"
       "pd_concat (windows id (JCarbonClient numbered_readings {})
           (Suc (crossings 2 0 two_crossings))) = Inr acc"
       "last_report s1 = Some (Some acc)"
       "reports2 s2 0 = Some (tag_epoch 0 acc)"
    by blast
  from r(3) have "acc = [joules ''CPU'' ''0'' 1, joules ''CPU'' ''0'' 2, joules ''CPU'' ''0'' 3]"
    unfolding n w by (simp add: pd_concat_def)
  with r(1,2,4,5) h show ?thesis by blast
qed


section \<open>The timestamp table of the experiment callback\<close>











end
